theory Spec2Isabelle
  imports Main "HOL-Library.Word"
begin

section \<open>Path functions of the Go standard library (Unix)\<close>

text \<open>
  Go strings are byte sequences, so a path is a \<open>string\<close> (a list of 8-bit characters).
  The repository runs on Linux (see the build workflow), so the path separator is \<open>/\<close> and
  there is no volume name. The functions of \<open>path/filepath\<close> and \<open>strings\<close> that
  \<open>archive.go\<close> calls are written out here after their library source.
\<close>

definition Separator :: char where
  "Separator = CHR ''/''"

text \<open>Splitting a path at every separator; a path with n separators has n + 1 elements,
  some of which may be empty.\<close>

fun split_path :: "string \<Rightarrow> string list" where
  "split_path [] = [[]]"
| "split_path (c # cs) =
     (if c = Separator then [] # split_path cs
      else (c # hd (split_path cs)) # tl (split_path cs))"

fun join_path :: "string list \<Rightarrow> string" where
  "join_path [] = []"
| "join_path [e] = e"
| "join_path (e # es) = e @ Separator # join_path es"

text \<open>
  The main loop of \<open>filepath.Clean\<close>, element by element. \<open>out\<close> is the output written
  so far, as the list of its elements, last element first. An empty element and a \<open>.\<close>
  element are dropped. A \<open>..\<close> element removes the last element written, unless the output
  is at the point where \<open>..\<close> must stop (Go's \<open>out.w > dotdot\<close> fails): nothing is written
  yet, or only the leading \<open>..\<close> elements are; then a rooted path drops it and a relative
  path keeps it. Any other element is appended.
\<close>

definition clean_step :: "bool \<Rightarrow> string list \<Rightarrow> string \<Rightarrow> string list" where
  "clean_step rooted out e =
     (if e = [] then out
      else if e = ''.'' then out
      else if e = ''..'' then
        (if out \<noteq> [] \<and> hd out \<noteq> ''..'' then tl out
         else if \<not> rooted then ''..'' # out
         else out)
      else e # out)"

definition clean_elems :: "bool \<Rightarrow> string list \<Rightarrow> string list \<Rightarrow> string list" where
  "clean_elems rooted out es = foldl (clean_step rooted) out es"

text \<open>The output buffer as a string: a rooted path starts with the separator, and an empty
  relative result becomes \<open>.\<close>.\<close>

definition render :: "bool \<Rightarrow> string list \<Rightarrow> string" where
  "render rooted out =
     (let s = join_path (rev out)
      in if rooted then Separator # s
         else if s = [] then ''.'' else s)"

definition Clean :: "string \<Rightarrow> string" where
  "Clean path =
     (if path = [] then ''.''
      else
        let rooted = (hd path = Separator)
        in render rooted (clean_elems rooted [] (split_path path)))"

text \<open>\<open>filepath.Join\<close>: leading empty elements are ignored, the rest is joined with the
  separator and cleaned; with no non-empty element the result is the empty string.\<close>

fun Join :: "string list \<Rightarrow> string" where
  "Join [] = []"
| "Join (e # es) = (if e \<noteq> [] then Clean (join_path (e # es)) else Join es)"

text \<open>\<open>filepath.Ext\<close>: the suffix beginning at the final dot in the final element of the
  path; empty if there is no dot. The scan runs from the end of the path.\<close>

fun ext_scan :: "string \<Rightarrow> string \<Rightarrow> string" where
  "ext_scan [] acc = []"
| "ext_scan (c # rs) acc =
     (if c = Separator then []
      else if c = CHR ''.'' then c # acc
      else ext_scan rs (c # acc))"

definition Ext :: "string \<Rightarrow> string" where
  "Ext path = ext_scan (rev path) []"

definition HasPrefix :: "string \<Rightarrow> string \<Rightarrow> bool" where
  "HasPrefix s pre = (length pre \<le> length s \<and> take (length pre) s = pre)"

definition HasSuffix :: "string \<Rightarrow> string \<Rightarrow> bool" where
  "HasSuffix s suf = (length suf \<le> length s \<and> drop (length s - length suf) s = suf)"

definition TrimSuffix :: "string \<Rightarrow> string \<Rightarrow> string" where
  "TrimSuffix s suf = (if HasSuffix s suf then take (length s - length suf) s else s)"

text \<open>\<open>filepath.Base\<close>: the last element of the path, trailing separators removed first.\<close>

definition Base :: "string \<Rightarrow> string" where
  "Base path =
     (if path = [] then ''.''
      else
        let p = rev (dropWhile (\<lambda>c. c = Separator) (rev path));
            b = rev (takeWhile (\<lambda>c. c \<noteq> Separator) (rev p))
        in if b = [] then [Separator] else b)"

text \<open>\<open>filepath.Dir\<close>: everything up to the last separator, cleaned.\<close>

definition Dir :: "string \<Rightarrow> string" where
  "Dir path = Clean (rev (dropWhile (\<lambda>c. c \<noteq> Separator) (rev path)))"

section \<open>Errors\<close>

text \<open>
  The errors of the operating system and of \<open>archive.go\<close>. \<open>Wrapped fmt arg e\<close> is
  \<open>fmt.Errorf(fmt, arg, e)\<close> with the cause \<open>e\<close> wrapped by \<open>%w\<close>;
  \<open>IllegalFilePath\<close> is the error of \<open>validatePath\<close>.
\<close>

datatype error =
    ENOENT | EEXIST | EISDIR | ENOTDIR | ESPIPE | EOF
  | Canceled | DeadlineExceeded
  | CodecError string
  | IllegalFilePath string
  | UnsupportedFormat string
  | ExtractFailed string
  | Wrapped string string error

section \<open>Path safety: \<open>validatePath\<close> and \<open>safeJoin\<close>\<close>

definition validatePath :: "string \<Rightarrow> string \<Rightarrow> error option" where
  "validatePath target destDir =
     (let cleanDest = Clean destDir @ [Separator]
      in if \<not> HasPrefix (Clean target) cleanDest then Some (IllegalFilePath target)
         else None)"

definition safeJoin :: "string \<Rightarrow> string \<Rightarrow> error + string" where
  "safeJoin destDir fileName =
     (let cleanDest = Clean destDir @ [Separator];
          filePath = Join [cleanDest, fileName]
      in case validatePath filePath cleanDest of
           Some err \<Rightarrow> Inl err
         | None \<Rightarrow> Inr filePath)"


section \<open>Files, the file system and the operating system\<close>

text \<open>
  A file's content is a list of bytes. The file system maps a cleaned path to a node: a
  regular file, a directory, or a stream (a FIFO or a character device with pending
  bytes), which can be opened and read but not positioned. There are no symbolic links.
  The working directory is the node at \<open>.\<close>. Permission bits are passed to the calls as
  in the source but are not tracked.
\<close>

type_synonym byte = "8 word"

datatype node = RegFile "byte list" | DirNode | Stream "byte list"

type_synonym filesystem = "string \<rightharpoonup> node"

record os_file =
  fnode :: node
  offset :: nat

text \<open>
  The kernel receives a name as the program wrote it and resolves it element by element,
  from the root for a name that begins with the separator and from the working directory
  otherwise. Every element, also an empty one, \<open>.\<close> and \<open>..\<close>, is looked up in the place
  reached so far, which must be a directory: a name that passes through a missing place
  fails with \<open>ENOENT\<close>, one that passes through a file fails with \<open>ENOTDIR\<close>, and so
  does the name of a file followed by a separator.
\<close>

definition start_dir :: "string \<Rightarrow> string" where
  "start_dir name = (if hd name = Separator then [Separator] else ''.'')"

fun walk :: "filesystem \<Rightarrow> string \<Rightarrow> string list \<Rightarrow> error + string" where
  "walk fs cur [] = Inr cur"
| "walk fs cur (e # es) =
     (case fs cur of
        None \<Rightarrow> Inl ENOENT
      | Some DirNode \<Rightarrow> walk fs (Join [cur, e]) es
      | Some n \<Rightarrow> Inl ENOTDIR)"

definition resolve :: "filesystem \<Rightarrow> string \<Rightarrow> error + string" where
  "resolve fs name =
     (if name = [] then Inl ENOENT
      else walk fs (start_dir name) (split_path name))"

text \<open>A call that creates its last element resolves the elements before it to a
  directory.\<close>

definition resolve_parent :: "filesystem \<Rightarrow> string \<Rightarrow> string list \<Rightarrow> error + string" where
  "resolve_parent fs name es =
     (case walk fs (start_dir name) (butlast es) of
        Inl err \<Rightarrow> Inl err
      | Inr d \<Rightarrow>
         (case fs d of
            None \<Rightarrow> Inl ENOENT
          | Some DirNode \<Rightarrow> Inr d
          | Some n \<Rightarrow> Inl ENOTDIR))"

definition os_Open :: "filesystem \<Rightarrow> string \<Rightarrow> error + os_file" where
  "os_Open fs name =
     (case resolve fs name of
        Inl err \<Rightarrow> Inl err
      | Inr p \<Rightarrow>
         (case fs p of
            None \<Rightarrow> Inl ENOENT
          | Some n \<Rightarrow> Inr \<lparr>fnode = n, offset = 0\<rparr>))"

text \<open>\<open>file.Read(buf)\<close> with \<open>len(buf) = n\<close>: the bytes read (at most n), or \<open>io.EOF\<close>
  when none is left; reading a directory fails.\<close>

definition file_Read :: "os_file \<Rightarrow> nat \<Rightarrow> error + (byte list \<times> os_file)" where
  "file_Read f n =
     (case fnode f of
        DirNode \<Rightarrow> Inl EISDIR
      | RegFile bs \<Rightarrow>
          if n = 0 then Inr ([], f)
          else if length bs \<le> offset f then Inl EOF
          else let got = take n (drop (offset f) bs)
               in Inr (got, f\<lparr>offset := offset f + length got\<rparr>)
      | Stream bs \<Rightarrow>
          if n = 0 then Inr ([], f)
          else if length bs \<le> offset f then Inl EOF
          else let got = take n (drop (offset f) bs)
               in Inr (got, f\<lparr>offset := offset f + length got\<rparr>))"

text \<open>\<open>file.Seek(off, io.SeekStart)\<close>: a stream cannot be positioned.\<close>

definition file_Seek :: "os_file \<Rightarrow> nat \<Rightarrow> error + os_file" where
  "file_Seek f off =
     (case fnode f of
        Stream bs \<Rightarrow> Inl ESPIPE
      | _ \<Rightarrow> Inr (f\<lparr>offset := off\<rparr>))"

definition os_Stat :: "filesystem \<Rightarrow> string \<Rightarrow> error + node" where
  "os_Stat fs name =
     (case resolve fs name of
        Inl err \<Rightarrow> Inl err
      | Inr p \<Rightarrow>
         (case fs p of
            None \<Rightarrow> Inl ENOENT
          | Some n \<Rightarrow> Inr n))"

definition os_IsNotExist :: "error \<Rightarrow> bool" where
  "os_IsNotExist err = (err = ENOENT)"

definition os_IsExist :: "error \<Rightarrow> bool" where
  "os_IsExist err = (err = EEXIST)"

text \<open>\<open>os.Mkdir\<close> creates one directory in an existing directory; separators after the
  last element are ignored.\<close>

definition os_Mkdir :: "filesystem \<Rightarrow> string \<Rightarrow> int \<Rightarrow> error + filesystem" where
  "os_Mkdir fs name perm =
     (if name = [] then Inl ENOENT
      else
        let es = rev (dropWhile (\<lambda>e. e = []) (rev (split_path name)))
        in if es = [] then Inl EEXIST
           else case resolve_parent fs name es of
                  Inl err \<Rightarrow> Inl err
                | Inr d \<Rightarrow>
                    let p = Join [d, last es]
                    in case fs p of
                         Some n \<Rightarrow> Inl EEXIST
                       | None \<Rightarrow> Inr (fs(p \<mapsto> DirNode)))"

text \<open>\<open>os.OpenFile\<close> with \<open>O_CREATE|O_WRONLY|O_TRUNC\<close>: an existing regular file is
  emptied, a missing one is created in an existing directory; a name that ends in a
  separator names a directory.\<close>

definition os_OpenFile :: "filesystem \<Rightarrow> string \<Rightarrow> int \<Rightarrow> error + filesystem" where
  "os_OpenFile fs name perm =
     (if name = [] then Inl ENOENT
      else
        let es = split_path name
        in case resolve_parent fs name es of
             Inl err \<Rightarrow> Inl err
           | Inr d \<Rightarrow>
               if last es = [] then Inl EISDIR
               else
                 let p = Join [d, last es]
                 in case fs p of
                      Some DirNode \<Rightarrow> Inl EISDIR
                    | Some (RegFile bs) \<Rightarrow> Inr (fs(p \<mapsto> RegFile []))
                    | Some (Stream bs) \<Rightarrow> Inr fs
                    | None \<Rightarrow> Inr (fs(p \<mapsto> RegFile [])))"

text \<open>\<open>os.Create(name)\<close> is \<open>OpenFile(name, O_RDWR|O_CREATE|O_TRUNC, 0666)\<close>.\<close>

definition os_Create :: "filesystem \<Rightarrow> string \<Rightarrow> error + filesystem" where
  "os_Create fs name = os_OpenFile fs name 438"

text \<open>Writing to the file that was opened under a name, which the kernel resolved to the
  cleaned name: the bytes are appended to a regular file; bytes written to a stream
  leave the file system.\<close>

definition file_Write :: "filesystem \<Rightarrow> string \<Rightarrow> byte list \<Rightarrow> filesystem" where
  "file_Write fs name bs =
     (let p = Clean name
      in case fs p of
           Some (RegFile old) \<Rightarrow> fs(p \<mapsto> RegFile (old @ bs))
         | _ \<Rightarrow> fs)"

text \<open>
  A reader is the bytes it delivers and how it ends: \<open>None\<close> for \<open>io.EOF\<close>, or the error
  of the read after the last byte. \<open>io.LimitReader r n\<close> stops with \<open>io.EOF\<close> after n
  bytes; \<open>io.Copy\<close> writes what the reader delivers and returns its error.
\<close>

type_synonym stream = "byte list \<times> error option"

definition io_LimitReader :: "stream \<Rightarrow> nat \<Rightarrow> stream" where
  "io_LimitReader r n = (take n (fst r), if length (fst r) < n then snd r else None)"

definition io_Copy :: "filesystem \<Rightarrow> string \<Rightarrow> stream \<Rightarrow> error option \<times> filesystem" where
  "io_Copy fs dst r = (snd r, file_Write fs dst (fst r))"

definition file_stream :: "os_file \<Rightarrow> stream" where
  "file_stream f =
     (case fnode f of
        RegFile bs \<Rightarrow> (drop (offset f) bs, None)
      | Stream bs \<Rightarrow> (drop (offset f) bs, None)
      | DirNode \<Rightarrow> ([], Some EISDIR))"

text \<open>The pattern \<open>if _, err := os.Stat(p); os.IsNotExist(err) { os.Mkdir(p, 0o750) }\<close> of
  \<open>Extract7z\<close> and \<open>ExtractTar\<close>: the error of \<open>Mkdir\<close>, if any, ends the operation.\<close>

definition Mkdir_if_missing :: "filesystem \<Rightarrow> string \<Rightarrow> error + filesystem" where
  "Mkdir_if_missing fs name =
     (case os_Stat fs name of
        Inr n \<Rightarrow> Inr fs
      | Inl err \<Rightarrow>
          if os_IsNotExist err then os_Mkdir fs name 488
          else Inr fs)"

text \<open>Modelled from the spec: \<open>CreateDir\<close> is a function of package \<open>utils\<close> whose source
  file is not part of the sources. The spec (4.3, 6): the directory is created if it is
  missing, "and only it -- not arbitrary ancestors"; a directory that exists is not an
  error; it is created with owner and group access only.\<close>

definition CreateDir :: "filesystem \<Rightarrow> string \<Rightarrow> error + filesystem" where
  "CreateDir fs name =
     (case os_Stat fs name of
        Inr n \<Rightarrow> Inr fs
      | Inl err \<Rightarrow>
          if os_IsNotExist err then os_Mkdir fs name 488
          else Inr fs)"

section \<open>archive.go\<close>

definition maxExtractFileSize :: nat where
  "maxExtractFileSize = push_bit 30 5"

definition sanitizeFileMode :: "int \<Rightarrow> int" where
  "sanitizeFileMode mode = (if mode < 0 \<or> mode > 511 then 493 else mode)"

subsection \<open>Detection functions\<close>

text \<open>\<open>string(buf)\<close>: the bytes as a Go string.\<close>

definition string_of_bytes :: "byte list \<Rightarrow> string" where
  "string_of_bytes bs = map (\<lambda>b. char_of (unat b)) bs"

text \<open>The signature array starts as zeros; \<open>Read\<close> fills its first bytes.\<close>

definition IsZipFile :: "filesystem \<Rightarrow> string \<Rightarrow> bool" where
  "IsZipFile fs path =
     (case os_Open fs path of
        Inl err \<Rightarrow> False
      | Inr file \<Rightarrow>
         (case file_Read file 4 of
            Inl err \<Rightarrow> False
          | Inr (got, file') \<Rightarrow>
              let signature = got @ replicate (4 - length got) 0
              in signature = [0x50, 0x4B, 0x03, 0x04]))"

definition Is7zFile :: "filesystem \<Rightarrow> string \<Rightarrow> bool" where
  "Is7zFile fs path =
     (case os_Open fs path of
        Inl err \<Rightarrow> False
      | Inr file \<Rightarrow>
         (case file_Read file 6 of
            Inl err \<Rightarrow> False
          | Inr (got, file') \<Rightarrow>
              let header = got @ replicate (6 - length got) 0;
                  expected = [0x37, 0x7A, 0xBC, 0xAF, 0x27, 0x1C]
              in header = expected))"

definition IsTarFile :: "filesystem \<Rightarrow> string \<Rightarrow> bool" where
  "IsTarFile fs path =
     (case os_Open fs path of
        Inl err \<Rightarrow> False
      | Inr file \<Rightarrow>
         (case file_Seek file 257 of
            Inl err \<Rightarrow> False
          | Inr file1 \<Rightarrow>
             (case file_Read file1 6 of
                Inl err \<Rightarrow> False
              | Inr (got, file2) \<Rightarrow>
                  if length got < 6 then False
                  else HasPrefix (string_of_bytes got) ''ustar'')))"

text \<open>\<open>strings.ToLower\<close> on the ASCII letters; the extensions compared against are ASCII.\<close>

definition to_lower :: "char \<Rightarrow> char" where
  "to_lower c =
     (let n = (of_char c :: nat)
      in if 65 \<le> n \<and> n \<le> 90 then char_of (n + 32) else c)"

definition ToLower :: "string \<Rightarrow> string" where
  "ToLower s = map to_lower s"

definition IsActualArchive :: "string \<Rightarrow> bool" where
  "IsActualArchive path =
     (let ext = ToLower (Ext path);
          officeExtensions = [''.docx'', ''.xlsx'', ''.pptx'', ''.docm'', ''.xlsm'', ''.pptm''];
          openDocExtensions = [''.odt'', ''.ods'', ''.odp'', ''.odg'', ''.odf'']
      in if List.member officeExtensions ext then False
         else if List.member openDocExtensions ext then False
         else if ext = ''.jar'' then False
         else True)"

subsection \<open>Archive readers\<close>

text \<open>
  The codecs (\<open>archive/zip\<close>, \<open>bodgit/sevenzip\<close>, \<open>archive/tar\<close>, \<open>compress/gzip\<close>) are
  libraries: each is a parameter, a function from the bytes of a file to the entries it
  holds. An entry of a ZIP or 7-Zip reader has a name, is a directory or not, has a mode
  and can be opened for reading. A TAR reader delivers headers, each followed by its
  data, until \<open>io.EOF\<close> (\<open>None\<close>) or an error.
\<close>

record entry =
  Name :: string
  IsDir :: bool
  Mode :: int
  Open :: "error + stream"

record tar_header =
  hName :: string
  Typeflag :: char
  hMode :: int
  hData :: stream

definition TypeReg :: char where
  "TypeReg = CHR ''0''"

definition TypeDir :: char where
  "TypeDir = CHR ''5''"

record codec =
  zip_NewReader :: "byte list \<Rightarrow> error + entry list"
  sevenzip_NewReader :: "byte list \<Rightarrow> error + entry list"
  gzip_NewReader :: "stream \<Rightarrow> error + stream"
  tar_NewReader :: "stream \<Rightarrow> tar_header list \<times> error option"

text \<open>\<open>zip.OpenReader\<close> and \<open>sevenzip.OpenReader\<close> open the file and read it at
  arbitrary positions, which only a regular file allows.\<close>

definition zip_OpenReader :: "codec \<Rightarrow> filesystem \<Rightarrow> string \<Rightarrow> error + entry list" where
  "zip_OpenReader c fs name =
     (case os_Open fs name of
        Inl err \<Rightarrow> Inl err
      | Inr f \<Rightarrow>
         (case fnode f of
            RegFile bs \<Rightarrow> zip_NewReader c bs
          | DirNode \<Rightarrow> Inl EISDIR
          | Stream bs \<Rightarrow> Inl ESPIPE))"

definition sevenzip_OpenReader :: "codec \<Rightarrow> filesystem \<Rightarrow> string \<Rightarrow> error + entry list" where
  "sevenzip_OpenReader c fs name =
     (case os_Open fs name of
        Inl err \<Rightarrow> Inl err
      | Inr f \<Rightarrow>
         (case fnode f of
            RegFile bs \<Rightarrow> sevenzip_NewReader c bs
          | DirNode \<Rightarrow> Inl EISDIR
          | Stream bs \<Rightarrow> Inl ESPIPE))"

text \<open>The cancellation signal: \<open>ctx i\<close> is what the i-th poll of \<open>ctx.Done()\<close> in an
  operation sees, \<open>None\<close> while the context is live and \<open>Some (ctx.Err())\<close> once it is
  done.\<close>

type_synonym Context = "nat \<Rightarrow> error option"


subsection \<open>Extraction functions\<close>

text \<open>
  Each adapter runs a loop over the entries of the archive. The body of the loop, after
  the poll of the cancellation signal, is a function of the file system and the entry; it
  returns the error that ends the operation, if any, and the file system as the body
  left it. Closing files is deferred to the end of the operation and changes nothing here.
\<close>

definition ExtractZip_entry :: "string \<Rightarrow> filesystem \<Rightarrow> entry \<Rightarrow> error option \<times> filesystem" where
  "ExtractZip_entry cleanDest fs file =
     (case safeJoin cleanDest (Name file) of
        Inl err \<Rightarrow> (Some (Wrapped ''invalid file path %q: %w'' (Name file) err), fs)
      | Inr filePath \<Rightarrow>
          if IsDir file then
            (case CreateDir fs filePath of
               Inl err \<Rightarrow> (Some (Wrapped ''failed to create directory %q: %w'' filePath err), fs)
             | Inr fs1 \<Rightarrow> (None, fs1))
          else
            (case CreateDir fs (Dir filePath) of
               Inl err \<Rightarrow>
                 (Some (Wrapped ''failed to create parent directories for %q: %w'' filePath err), fs)
             | Inr fs1 \<Rightarrow>
                (case os_Create fs1 filePath of
                   Inl err \<Rightarrow> (Some (Wrapped ''failed to create file %q: %w'' filePath err), fs1)
                 | Inr fs2 \<Rightarrow>
                    (case Open file of
                       Inl err \<Rightarrow>
                         (Some (Wrapped ''failed to open file %q in archive: %w'' (Name file) err), fs2)
                     | Inr rc \<Rightarrow>
                        (case io_Copy fs2 filePath (io_LimitReader rc maxExtractFileSize) of
                           (Some err, fs3) \<Rightarrow>
                             (Some (Wrapped ''failed to copy contents to %q: %w'' filePath err), fs3)
                         | (None, fs3) \<Rightarrow> (None, fs3))))))"

definition Extract7z_entry :: "string \<Rightarrow> filesystem \<Rightarrow> entry \<Rightarrow> error option \<times> filesystem" where
  "Extract7z_entry cleanDest fs file =
     (case safeJoin cleanDest (Name file) of
        Inl err \<Rightarrow> (Some err, fs)
      | Inr outPath \<Rightarrow>
          if IsDir file then
            (case os_Mkdir fs outPath (Mode file) of
               Inl err \<Rightarrow>
                 if \<not> os_IsExist err
                 then (Some (Wrapped ''creating directory %q: %w'' outPath err), fs)
                 else (None, fs)
             | Inr fs1 \<Rightarrow> (None, fs1))
          else
            let parentDir = Dir outPath
            in case Mkdir_if_missing fs parentDir of
                 Inl err \<Rightarrow>
                   (Some (Wrapped ''creating parent directories for %q: %w'' outPath err), fs)
               | Inr fs1 \<Rightarrow>
                  (case Open file of
                     Inl err \<Rightarrow>
                       (Some (Wrapped ''opening file %q from archive: %w'' (Name file) err), fs1)
                   | Inr rc \<Rightarrow>
                      (case os_OpenFile fs1 outPath (sanitizeFileMode (Mode file)) of
                         Inl err \<Rightarrow> (Some (Wrapped ''creating file %q: %w'' outPath err), fs1)
                       | Inr fs2 \<Rightarrow>
                          (case io_Copy fs2 outPath (io_LimitReader rc maxExtractFileSize) of
                             (Some err, fs3) \<Rightarrow>
                               (Some (Wrapped ''copying contents to %q: %w'' outPath err), fs3)
                           | (None, fs3) \<Rightarrow> (None, fs3)))))"

definition ExtractTar_entry :: "string \<Rightarrow> filesystem \<Rightarrow> tar_header \<Rightarrow> error option \<times> filesystem" where
  "ExtractTar_entry cleanDest fs header =
     (case safeJoin cleanDest (hName header) of
        Inl err \<Rightarrow> (Some err, fs)
      | Inr filePath \<Rightarrow>
          if Typeflag header = TypeDir then
            (case os_Mkdir fs filePath (sanitizeFileMode (hMode header)) of
               Inl err \<Rightarrow> if \<not> os_IsExist err then (Some err, fs) else (None, fs)
             | Inr fs1 \<Rightarrow> (None, fs1))
          else if Typeflag header = TypeReg then
            let parentDir = Dir filePath
            in case Mkdir_if_missing fs parentDir of
                 Inl err \<Rightarrow> (Some err, fs)
               | Inr fs1 \<Rightarrow>
                  (case os_Create fs1 filePath of
                     Inl err \<Rightarrow> (Some err, fs1)
                   | Inr fs2 \<Rightarrow>
                       io_Copy fs2 filePath (io_LimitReader (hData header) maxExtractFileSize))
          else (None, fs))"

text \<open>\<open>for _, file := range files\<close> with the poll of \<open>ctx.Done()\<close> at the top of the
  body; \<open>i\<close> counts the polls.\<close>

fun range_files ::
  "(filesystem \<Rightarrow> entry \<Rightarrow> error option \<times> filesystem) \<Rightarrow> Context \<Rightarrow> nat \<Rightarrow> filesystem \<Rightarrow>
   entry list \<Rightarrow> error option \<times> filesystem" where
  "range_files body ctx i fs [] = (None, fs)"
| "range_files body ctx i fs (file # files) =
     (case ctx i of
        Some err \<Rightarrow> (Some err, fs)
      | None \<Rightarrow>
         (case body fs file of
            (Some err, fs') \<Rightarrow> (Some err, fs')
          | (None, fs') \<Rightarrow> range_files body ctx (Suc i) fs' files))"

text \<open>The loop of \<open>ExtractTar\<close>: poll, then \<open>tarReader.Next()\<close>, which ends the loop at
  \<open>io.EOF\<close> and the operation at any other error, then the body. \<open>eof\<close> is how the
  reader ends after its last header: \<open>None\<close> for \<open>io.EOF\<close>, or an error.\<close>

fun ExtractTar_loop ::
  "Context \<Rightarrow> nat \<Rightarrow> string \<Rightarrow> filesystem \<Rightarrow> tar_header list \<Rightarrow> error option \<Rightarrow>
   error option \<times> filesystem" where
  "ExtractTar_loop ctx i cleanDest fs [] eof =
     (case ctx i of
        Some err \<Rightarrow> (Some err, fs)
      | None \<Rightarrow> (eof, fs))"
| "ExtractTar_loop ctx i cleanDest fs (header # headers) eof =
     (case ctx i of
        Some err \<Rightarrow> (Some err, fs)
      | None \<Rightarrow>
         (case ExtractTar_entry cleanDest fs header of
            (Some err, fs') \<Rightarrow> (Some err, fs')
          | (None, fs') \<Rightarrow> ExtractTar_loop ctx (Suc i) cleanDest fs' headers eof))"

definition ExtractZip ::
  "codec \<Rightarrow> Context \<Rightarrow> filesystem \<Rightarrow> string \<Rightarrow> string \<Rightarrow> (error + string) \<times> filesystem" where
  "ExtractZip c ctx fs src dest =
     (case zip_OpenReader c fs src of
        Inl err \<Rightarrow> (Inl (Wrapped ''failed to open zip file %q: %w'' src err), fs)
      | Inr files \<Rightarrow>
         (case CreateDir fs dest of
            Inl err \<Rightarrow>
              (Inl (Wrapped ''failed to create destination directory %q: %w'' dest err), fs)
          | Inr fs1 \<Rightarrow>
              let cleanDest = Clean dest @ [Separator]
              in case range_files (ExtractZip_entry cleanDest) ctx 0 fs1 files of
                   (Some err, fs2) \<Rightarrow> (Inl err, fs2)
                 | (None, fs2) \<Rightarrow>
                     let packageName = Base (TrimSuffix src (Ext src));
                         extractedPath = Join [cleanDest, packageName]
                     in (Inr extractedPath, fs2)))"

definition Extract7z ::
  "codec \<Rightarrow> Context \<Rightarrow> filesystem \<Rightarrow> string \<Rightarrow> string \<Rightarrow> (error + string) \<times> filesystem" where
  "Extract7z c ctx fs src dest =
     (case sevenzip_OpenReader c fs src of
        Inl err \<Rightarrow> (Inl (Wrapped ''opening archive: %w'' [] err), fs)
      | Inr files \<Rightarrow>
         (case Mkdir_if_missing fs dest of
            Inl err \<Rightarrow> (Inl (Wrapped ''creating destination directory: %w'' [] err), fs)
          | Inr fs1 \<Rightarrow>
              let cleanDest = Clean dest @ [Separator]
              in case range_files (Extract7z_entry cleanDest) ctx 0 fs1 files of
                   (Some err, fs2) \<Rightarrow> (Inl err, fs2)
                 | (None, fs2) \<Rightarrow>
                     let packageName = Base (TrimSuffix src (Ext src));
                         extractedPath = Join [cleanDest, packageName]
                     in (Inr extractedPath, fs2)))"

text \<open>The reader of \<open>ExtractTar\<close>: through \<open>gzip\<close> when the name of the source ends in
  \<open>.gz\<close> or \<open>.tgz\<close>.\<close>

definition ExtractTar_reader ::
  "codec \<Rightarrow> string \<Rightarrow> os_file \<Rightarrow> error + (tar_header list \<times> error option)" where
  "ExtractTar_reader c src file =
     (if HasSuffix src ''.gz'' \<or> HasSuffix src ''.tgz'' then
        (case gzip_NewReader c (file_stream file) of
           Inl err \<Rightarrow> Inl err
         | Inr gr \<Rightarrow> Inr (tar_NewReader c gr))
      else Inr (tar_NewReader c (file_stream file)))"

definition ExtractTar ::
  "codec \<Rightarrow> Context \<Rightarrow> filesystem \<Rightarrow> string \<Rightarrow> string \<Rightarrow> (error + string) \<times> filesystem" where
  "ExtractTar c ctx fs src dest =
     (case os_Open fs src of
        Inl err \<Rightarrow> (Inl err, fs)
      | Inr file \<Rightarrow>
         (case ExtractTar_reader c src file of
            Inl err \<Rightarrow> (Inl err, fs)
          | Inr tarReader \<Rightarrow>
             (case Mkdir_if_missing fs dest of
                Inl err \<Rightarrow> (Inl err, fs)
              | Inr fs1 \<Rightarrow>
                  let cleanDest = Clean dest @ [Separator]
                  in case ExtractTar_loop ctx 0 cleanDest fs1 (fst tarReader) (snd tarReader) of
                       (Some err, fs2) \<Rightarrow> (Inl err, fs2)
                     | (None, fs2) \<Rightarrow>
                         let packageName = Base (TrimSuffix src (Ext src));
                             extractedPath = Join [cleanDest, packageName]
                         in (Inr extractedPath, fs2))))"

definition ExtractArchive ::
  "codec \<Rightarrow> Context \<Rightarrow> filesystem \<Rightarrow> string \<Rightarrow> string \<Rightarrow> (error + string) \<times> filesystem" where
  "ExtractArchive c ctx fs src dest =
     (case (if Is7zFile fs src then
              (case Extract7z c ctx fs src dest of
                 (Inl err, fs') \<Rightarrow> (Inl (Wrapped ''error extracting 7zip: %w'' [] err), fs')
               | (Inr aipPath, fs') \<Rightarrow> (Inr aipPath, fs'))
            else if IsTarFile fs src then
              (case ExtractTar c ctx fs src dest of
                 (Inl err, fs') \<Rightarrow> (Inl (Wrapped ''error extracting tar: %w'' [] err), fs')
               | (Inr aipPath, fs') \<Rightarrow> (Inr aipPath, fs'))
            else if IsZipFile fs src then
              (case ExtractZip c ctx fs src dest of
                 (Inl err, fs') \<Rightarrow> (Inl (Wrapped ''error extracting zip: %w'' [] err), fs')
               | (Inr aipPath, fs') \<Rightarrow> (Inr aipPath, fs'))
            else (Inl (UnsupportedFormat src), fs)) of
        (Inl err, fs') \<Rightarrow> (Inl err, fs')
      | (Inr aipPath, fs') \<Rightarrow>
          if aipPath = [] then (Inl (ExtractFailed src), fs')
          else (Inr aipPath, fs'))"


section \<open>Notions used in the proofs\<close>

text \<open>An ordinary path element: not empty, not \<open>.\<close>, not \<open>..\<close>, without a separator.\<close>

definition ordinary :: "string \<Rightarrow> bool" where
  "ordinary e \<longleftrightarrow> e \<noteq> [] \<and> e \<noteq> ''.'' \<and> e \<noteq> ''..'' \<and> Separator \<notin> set e"

text \<open>The shape of the output of the loop of \<open>Clean\<close> (last element first): ordinary
  elements, written after \<open>..\<close> elements only, which a rooted path never has.\<close>

fun clean_stack :: "bool \<Rightarrow> string list \<Rightarrow> bool" where
  "clean_stack rooted [] = True"
| "clean_stack rooted (e # out) =
     (if e = ''..'' then \<not> rooted \<and> (\<forall>x \<in> set out. x = ''..'')
      else ordinary e \<and> clean_stack rooted out)"

definition rooted :: "string \<Rightarrow> bool" where
  "rooted path \<longleftrightarrow> path \<noteq> [] \<and> hd path = Separator"

text \<open>The output of the loop of \<open>Clean\<close> on a path.\<close>

definition clean_out :: "string \<Rightarrow> string list" where
  "clean_out path =
     (if path = [] then [] else clean_elems (hd path = Separator) [] (split_path path))"

section \<open>The package name in the words of the specification\<close>



section \<open>Sample inputs\<close>

text \<open>
  Concrete inputs on which the theorems below are instantiated: the bytes of small files
  with the signatures of the three formats, a codec that knows the entries of these
  files, a file system that holds them beside an empty directory \<open>/out\<close>, a context
  that is never cancelled and one that is cancelled at its k-th poll.
\<close>

definition sample_zip_bytes :: "byte list" where
  "sample_zip_bytes = [0x50, 0x4B, 0x03, 0x04, 0x14, 0x00, 0x00, 0x00]"

definition evil_zip_bytes :: "byte list" where
  "evil_zip_bytes = [0x50, 0x4B, 0x03, 0x04, 0x0A, 0x00, 0x00, 0x00]"

definition sample_7z_bytes :: "byte list" where
  "sample_7z_bytes = [0x37, 0x7A, 0xBC, 0xAF, 0x27, 0x1C, 0x00, 0x04]"

definition sample_tar_bytes :: "byte list" where
  "sample_tar_bytes =
     [0x70, 0x6B, 0x67, 0x2F] @ replicate 253 0 @ [0x75, 0x73, 0x74, 0x61, 0x72, 0x00]
     @ replicate 249 0"

text \<open>A TAR file whose first member is the directory \<open>./\<close>, as \<open>tar -cf x.tar .\<close>
  writes it.\<close>

definition dot_tar_bytes :: "byte list" where
  "dot_tar_bytes =
     [0x2E, 0x2F] @ replicate 255 0 @ [0x75, 0x73, 0x74, 0x61, 0x72, 0x00] @ replicate 249 0"

text \<open>A TAR header whose member name begins with the four bytes of the ZIP signature.\<close>

definition polyglot_bytes :: "byte list" where
  "polyglot_bytes =
     [0x50, 0x4B, 0x03, 0x04] @ replicate 253 0 @ [0x75, 0x73, 0x74, 0x61, 0x72, 0x00]
     @ replicate 249 0"

text \<open>The 102 bytes of a gzip-compressed TAR archive (USTAR format) with the single
  member \<open>pkg/a.txt\<close>, content \<open>hi\<close>.\<close>

definition targz_bytes :: "byte list" where
  "targz_bytes =
     [0x1F, 0x8B, 0x08, 0x00, 0x00, 0x00, 0x00, 0x00, 0x02, 0xFF, 0xED, 0xCD, 0x31, 0x0E,
      0x82, 0x40, 0x14, 0x04, 0xD0, 0x7F, 0x14, 0x4F, 0x00, 0x84, 0x6C, 0xDC, 0xF3, 0x6C,
      0x25, 0x84, 0x86, 0xE0, 0x92, 0x78, 0x7C, 0x57, 0x2B, 0x62, 0xAF, 0x89, 0xE1, 0xBD,
      0x66, 0x26, 0xD3, 0xCC, 0xBA, 0xDC, 0xFA, 0xD2, 0xD5, 0x47, 0x8D, 0xEF, 0x19, 0x9A,
      0x6B, 0x4A, 0xEF, 0x6C, 0x3E, 0xB3, 0x19, 0x0F, 0xFD, 0xB5, 0xE7, 0x94, 0x73, 0x5C,
      0x86, 0xF8, 0x81, 0xFD, 0x5E, 0xCB, 0xD6, 0x2E, 0xE3, 0x9C, 0xA6, 0x39, 0x00, 0x00,
      0x00, 0x00, 0x00, 0x00, 0x00, 0x00, 0x00, 0xF8, 0x43, 0x4F, 0x2C, 0x0F, 0xA4, 0x1A,
      0x00, 0x28, 0x00, 0x00]"

text \<open>A ZIP archive of 532 bytes with one member, \<open>doc.xml\<close>, stored uncompressed:
  the local file header (37 bytes), the 420 bytes of the member, the central directory
  and its end record. The member holds the bytes \<open>ustar\<close> at its offset 220, which is
  offset 257 of the file.\<close>

definition poly_content :: "byte list" where
  "poly_content =
     replicate 220 0x41 @ [0x75, 0x73, 0x74, 0x61, 0x72, 0x00] @ replicate 194 0x41"

definition zip_ustar_bytes :: "byte list" where
  "zip_ustar_bytes =
     [0x50, 0x4B, 0x03, 0x04, 0x14, 0x00, 0x00, 0x00, 0x00, 0x00, 0x00, 0x00, 0x21, 0x58,
      0xD5, 0xFF, 0xDA, 0x69, 0xA4, 0x01, 0x00, 0x00, 0xA4, 0x01, 0x00, 0x00, 0x07, 0x00,
      0x00, 0x00, 0x64, 0x6F, 0x63, 0x2E, 0x78, 0x6D, 0x6C]
     @ poly_content
     @ [0x50, 0x4B, 0x01, 0x02, 0x14, 0x03, 0x14, 0x00, 0x00, 0x00, 0x00, 0x00, 0x00, 0x00,
        0x21, 0x58, 0xD5, 0xFF, 0xDA, 0x69, 0xA4, 0x01, 0x00, 0x00, 0xA4, 0x01, 0x00, 0x00,
        0x07, 0x00, 0x00, 0x00, 0x00, 0x00, 0x00, 0x00, 0x00, 0x00, 0x00, 0x00, 0xA4, 0x81,
        0x00, 0x00, 0x00, 0x00, 0x64, 0x6F, 0x63, 0x2E, 0x78, 0x6D, 0x6C, 0x50, 0x4B, 0x05,
        0x06, 0x00, 0x00, 0x00, 0x00, 0x01, 0x00, 0x01, 0x00, 0x35, 0x00, 0x00, 0x00, 0xC9,
        0x01, 0x00, 0x00, 0x00, 0x00]"

definition poly_files :: "entry list" where
  "poly_files =
     [\<lparr>Name = ''doc.xml'', IsDir = False, Mode = 420, Open = Inr (poly_content, None)\<rparr>]"

definition up_zip_bytes :: "byte list" where
  "up_zip_bytes = [0x50, 0x4B, 0x03, 0x04, 0x09, 0x00, 0x00, 0x00]"

definition sample_files :: "entry list" where
  "sample_files =
     [\<lparr>Name = ''pkg/'', IsDir = True, Mode = 493, Open = Inr ([], None)\<rparr>,
      \<lparr>Name = ''pkg/a.txt'', IsDir = False, Mode = 420, Open = Inr ([0x68, 0x69], None)\<rparr>,
      \<lparr>Name = ''pkg/b.txt'', IsDir = False, Mode = 420, Open = Inr ([0x62], None)\<rparr>]"

definition evil_files :: "entry list" where
  "evil_files =
     [\<lparr>Name = ''ok.txt'', IsDir = False, Mode = 420, Open = Inr ([0x6F, 0x6B], None)\<rparr>,
      \<lparr>Name = ''../evil.txt'', IsDir = False, Mode = 420, Open = Inr ([0x78], None)\<rparr>]"

text \<open>An archive with one member whose name climbs one directory.\<close>

definition up_files :: "entry list" where
  "up_files = [\<lparr>Name = ''../x'', IsDir = False, Mode = 420, Open = Inr ([0x78], None)\<rparr>]"

definition sample_headers :: "tar_header list" where
  "sample_headers =
     [\<lparr>hName = ''pkg/'', Typeflag = TypeDir, hMode = 493, hData = ([], None)\<rparr>,
      \<lparr>hName = ''pkg/a.txt'', Typeflag = TypeReg, hMode = 420, hData = ([0x68, 0x69], None)\<rparr>,
      \<lparr>hName = ''pkg/b.txt'', Typeflag = TypeReg, hMode = 420, hData = ([0x62], None)\<rparr>]"

text \<open>The first header block of the TAR stream that \<open>targz_bytes\<close> decompresses to (name
  \<open>pkg/a.txt\<close>, magic \<open>ustar\<close>; the other fields are left out), and its one member.\<close>

definition targz_inner_bytes :: "byte list" where
  "targz_inner_bytes =
     [0x70, 0x6B, 0x67, 0x2F, 0x61, 0x2E, 0x74, 0x78, 0x74] @ replicate 248 0
     @ [0x75, 0x73, 0x74, 0x61, 0x72, 0x00] @ replicate 249 0"

definition targz_headers :: "tar_header list" where
  "targz_headers =
     [\<lparr>hName = ''pkg/a.txt'', Typeflag = TypeReg, hMode = 420, hData = ([0x68, 0x69], None)\<rparr>]"

definition dot_headers :: "tar_header list" where
  "dot_headers =
     [\<lparr>hName = ''./'', Typeflag = TypeDir, hMode = 493, hData = ([], None)\<rparr>,
      \<lparr>hName = ''./a.txt'', Typeflag = TypeReg, hMode = 420, hData = ([0x68, 0x69], None)\<rparr>]"

definition sample_codec :: codec where
  "sample_codec =
     \<lparr>zip_NewReader = (\<lambda>bs.
        if bs = sample_zip_bytes then Inr sample_files
        else if bs = evil_zip_bytes then Inr evil_files
        else if bs = zip_ustar_bytes then Inr poly_files
        else if bs = up_zip_bytes then Inr up_files
        else Inl (CodecError ''zip: not a valid zip file'')),
      sevenzip_NewReader = (\<lambda>bs.
        if bs = sample_7z_bytes then Inr sample_files
        else Inl (CodecError ''sevenzip: not a valid 7-zip file'')),
      gzip_NewReader = (\<lambda>r.
        if fst r = targz_bytes then Inr (targz_inner_bytes, None)
        else Inl (CodecError ''gzip: invalid header'')),
      tar_NewReader = (\<lambda>r.
        if fst r = sample_tar_bytes then (sample_headers, None)
        else if fst r = dot_tar_bytes then (dot_headers, None)
        else if fst r = targz_inner_bytes then (targz_headers, None)
        else ([], Some (CodecError ''archive/tar: invalid tar header'')))\<rparr>"

definition sample_fs :: filesystem where
  "sample_fs =
     [''/'' \<mapsto> DirNode, ''/in'' \<mapsto> DirNode, ''/out'' \<mapsto> DirNode,
      ''/in/pkg.zip'' \<mapsto> RegFile sample_zip_bytes,
      ''/in/evil.zip'' \<mapsto> RegFile evil_zip_bytes,
      ''/in/report.docx'' \<mapsto> RegFile sample_zip_bytes,
      ''/in/.zip'' \<mapsto> RegFile sample_zip_bytes,
      ''/in/poly.docx'' \<mapsto> RegFile zip_ustar_bytes,
      ''/in/pkg.7z'' \<mapsto> RegFile sample_7z_bytes,
      ''/in/pkg.tar'' \<mapsto> RegFile sample_tar_bytes,
      ''/in/dot.tar'' \<mapsto> RegFile dot_tar_bytes,
      ''/in/polyglot'' \<mapsto> RegFile polyglot_bytes,
      ''/in/pkg.tar.gz'' \<mapsto> RegFile targz_bytes,
      ''/in/notes.txt'' \<mapsto> RegFile [0x68, 0x69],
      ''/in/fifo'' \<mapsto> Stream sample_zip_bytes]"

text \<open>A file system seen from a working directory two levels below its top: the
  working directory \<open>.\<close>, its parent \<open>..\<close>, the parent of that, and an archive in the
  working directory.\<close>

definition up_fs :: filesystem where
  "up_fs =
     [''.'' \<mapsto> DirNode, ''..'' \<mapsto> DirNode, ''../..'' \<mapsto> DirNode,
      ''up.zip'' \<mapsto> RegFile up_zip_bytes]"

text \<open>An entry of two bytes and entries one byte longer than the cap on extracted files.\<close>

definition small_entry :: entry where
  "small_entry = \<lparr>Name = ''a.txt'', IsDir = False, Mode = 420, Open = Inr ([0x68, 0x69], None)\<rparr>"

definition big_entry :: entry where
  "big_entry =
     \<lparr>Name = ''big.bin'', IsDir = False, Mode = 420,
      Open = Inr (replicate (Suc maxExtractFileSize) 0x41, None)\<rparr>"

definition big_header :: tar_header where
  "big_header =
     \<lparr>hName = ''big.bin'', Typeflag = TypeReg, hMode = 420,
      hData = (replicate (Suc maxExtractFileSize) 0x41, None)\<rparr>"

definition live :: Context where
  "live = (\<lambda>i. None)"

definition cancel_at :: "nat \<Rightarrow> Context" where
  "cancel_at k = (\<lambda>i. if i < k then None else Some Canceled)"


section \<open>Properties of the path functions\<close>

lemma split_path_nonempty [simp]: "split_path s \<noteq> []"
  by (induction s) auto

lemma split_path_append:
  "split_path (a @ Separator # b) = split_path a @ split_path b"
proof (induction a)
  case Nil
  show ?case by simp
next
  case (Cons c a)
  show ?case
  proof (cases "c = Separator")
    case True
    with Cons show ?thesis by simp
  next
    case False
    have ne: "split_path a \<noteq> []" by simp
    from False Cons ne show ?thesis
      by (cases "split_path a") auto
  qed
qed

lemma split_path_no_sep: "e \<in> set (split_path s) \<Longrightarrow> Separator \<notin> set e"
proof (induction s arbitrary: e)
  case Nil
  then show ?case by simp
next
  case (Cons c s)
  obtain x xs where sp: "split_path s = x # xs"
    by (cases "split_path s") auto
  show ?case
  proof (cases "c = Separator")
    case True
    with Cons show ?thesis by auto
  next
    case False
    with Cons.prems sp have "e = c # x \<or> e \<in> set xs" by auto
    then show ?thesis
    proof
      assume "e = c # x"
      moreover have "Separator \<notin> set x" using Cons.IH [of x] sp by simp
      ultimately show ?thesis using False by auto
    next
      assume "e \<in> set xs"
      then show ?thesis using Cons.IH [of e] sp by simp
    qed
  qed
qed

lemma split_path_sep_free: "Separator \<notin> set e \<Longrightarrow> split_path e = [e]"
  by (induction e) auto

lemma split_join_path:
  "es \<noteq> [] \<Longrightarrow> \<forall>e \<in> set es. Separator \<notin> set e \<Longrightarrow> split_path (join_path es) = es"
proof (induction es rule: join_path.induct)
  case 1
  then show ?case by simp
next
  case (2 e)
  then show ?case by (simp add: split_path_sep_free)
next
  case (3 e v va)
  then show ?case by (simp add: split_path_append split_path_sep_free)
qed

lemma clean_elems_append:
  "clean_elems r out (xs @ ys) = clean_elems r (clean_elems r out xs) ys"
  by (simp add: clean_elems_def)

lemma clean_elems_Nil [simp]: "clean_elems r out [] = out"
  by (simp add: clean_elems_def)

lemma clean_elems_Cons: "clean_elems r out (e # es) = clean_elems r (clean_step r out e) es"
  by (simp add: clean_elems_def)

lemma clean_stack_all_dotdot:
  "\<not> r \<Longrightarrow> \<forall>x \<in> set out. x = ''..'' \<Longrightarrow> clean_stack r out"
  by (induction out) simp_all

lemma clean_stack_tl: "clean_stack r out \<Longrightarrow> clean_stack r (tl out)"
  by (cases out) (simp_all add: clean_stack_all_dotdot split: if_splits)

lemma clean_stack_hd_dotdot:
  "clean_stack r out \<Longrightarrow> out \<noteq> [] \<Longrightarrow> hd out = ''..'' \<Longrightarrow> \<forall>x \<in> set out. x = ''..''"
  by (cases out) (simp_all split: if_splits)

lemma clean_step_clean_stack:
  assumes cs: "clean_stack r out" and esep: "Separator \<notin> set e"
  shows "clean_stack r (clean_step r out e)"
proof -
  consider (skip) "e = [] \<or> e = ''.''" | (dd) "e = ''..''"
    | (ord) "e \<noteq> []" "e \<noteq> ''.''" "e \<noteq> ''..''"
    by blast
  then show ?thesis
  proof cases
    case skip
    then show ?thesis using cs by (auto simp: clean_step_def)
  next
    case dd
    show ?thesis
    proof (cases "out \<noteq> [] \<and> hd out \<noteq> ''..''")
      case True
      then show ?thesis
        using dd clean_stack_tl [OF cs] by (simp add: clean_step_def)
    next
      case False
      then have alld: "\<forall>x \<in> set out. x = ''..''"
        using clean_stack_hd_dotdot [OF cs] by (cases out) auto
      show ?thesis
      proof (cases r)
        case True
        then show ?thesis using dd False cs by (auto simp: clean_step_def)
      next
        case nr: False
        have "clean_stack r (''..'' # out)" using nr alld by simp
        then show ?thesis using dd False nr by (auto simp: clean_step_def)
      qed
    qed
  next
    case ord
    have "clean_stack r (e # out)"
      using ord esep cs by (simp add: ordinary_def)
    then show ?thesis using ord by (simp add: clean_step_def)
  qed
qed

lemma clean_elems_clean_stack:
  "clean_stack r out \<Longrightarrow> \<forall>e \<in> set es. Separator \<notin> set e \<Longrightarrow> clean_stack r (clean_elems r out es)"
proof (induction es arbitrary: out)
  case Nil
  then show ?case by simp
next
  case (Cons e es)
  have "clean_stack r (clean_step r out e)"
    using clean_step_clean_stack [of r out e] Cons.prems by simp
  then show ?case using Cons.IH Cons.prems(2) by (simp add: clean_elems_Cons)
qed

lemma dotdot_sep_free: "Separator \<notin> set ''..''"
  by (simp add: Separator_def)

lemma clean_stack_sep_free: "clean_stack r out \<Longrightarrow> e \<in> set out \<Longrightarrow> Separator \<notin> set e"
proof (induction out)
  case Nil
  then show ?case by simp
next
  case (Cons a out)
  show ?case
  proof (cases "a = ''..''")
    case True
    with Cons.prems have "e = ''..''" by auto
    then show ?thesis using dotdot_sep_free by simp
  next
    case False
    with Cons.prems have "ordinary a" and "clean_stack r out" by simp_all
    then show ?thesis using Cons.IH Cons.prems(2) by (auto simp: ordinary_def)
  qed
qed

lemma clean_stack_nonempty_elem: "clean_stack r out \<Longrightarrow> e \<in> set out \<Longrightarrow> e \<noteq> []"
proof (induction out)
  case Nil
  then show ?case by simp
next
  case (Cons a out)
  show ?case
  proof (cases "a = ''..''")
    case True
    with Cons.prems have "e = ''..''" by auto
    then show ?thesis by simp
  next
    case False
    with Cons.prems have "ordinary a" and "clean_stack r out" by simp_all
    then show ?thesis using Cons.IH Cons.prems(2) by (auto simp: ordinary_def)
  qed
qed

text \<open>Feeding a clean stack back through the loop rebuilds it.\<close>

lemma clean_elems_rebuild:
  "clean_stack r (ys @ out) \<Longrightarrow> clean_elems r out (rev ys) = ys @ out"
proof (induction ys arbitrary: out rule: rev_induct)
  case Nil
  then show ?case by simp
next
  case (snoc y ys)
  have cs: "clean_stack r (y # out)"
    using snoc.prems
  proof (induction ys)
    case Nil
    then show ?case by simp
  next
    case (Cons a ys)
    from Cons.prems have "clean_stack r (ys @ y # out)"
      using clean_stack_tl [of r "a # ys @ y # out"] by simp
    then show ?case using Cons.IH by simp
  qed
  have step: "clean_elems r out [y] = y # out"
  proof (cases "y = ''..''")
    case True
    with cs have "\<not> r" and "\<forall>x \<in> set out. x = ''..''" by auto
    then show ?thesis using True by (cases out) (auto simp: clean_elems_def clean_step_def)
  next
    case False
    with cs have "ordinary y" by simp
    then show ?thesis using False by (simp add: ordinary_def clean_elems_def clean_step_def)
  qed
  have "rev (ys @ [y]) = [y] @ rev ys" by simp
  then have "clean_elems r out (rev (ys @ [y])) = clean_elems r (clean_elems r out [y]) (rev ys)"
    by (simp only: clean_elems_append)
  also have "\<dots> = clean_elems r (y # out) (rev ys)" using step by simp
  also have "\<dots> = ys @ y # out" using snoc.IH [of "y # out"] snoc.prems by simp
  finally show ?case by simp
qed

lemma join_path_eq_Nil: "\<forall>e \<in> set es. e \<noteq> [] \<Longrightarrow> join_path es = [] \<longleftrightarrow> es = []"
  by (induction es rule: join_path.induct) auto

lemma join_path_hd: "es \<noteq> [] \<Longrightarrow> hd es \<noteq> [] \<Longrightarrow> hd (join_path es) = hd (hd es)"
  by (induction es rule: join_path.induct) auto

text \<open>The elements of a rendered clean stack, fed through the loop, give the stack back.\<close>

lemma clean_elems_render:
  assumes cs: "clean_stack r out"
  shows "clean_elems r [] (split_path (render r out)) = out"
proof (cases "out = []")
  case True
  then show ?thesis
    by (cases r) (simp_all add: render_def Separator_def clean_elems_def clean_step_def)
next
  case False
  have sf: "\<forall>e \<in> set (rev out). Separator \<notin> set e"
    using clean_stack_sep_free [OF cs] by simp
  have sj: "split_path (join_path (rev out)) = rev out"
    using split_join_path [of "rev out"] False sf by simp
  have ne: "join_path (rev out) \<noteq> []"
    using join_path_eq_Nil [of "rev out"] clean_stack_nonempty_elem [OF cs] False by simp
  have rb: "clean_elems r [] (rev out) = out"
    using clean_elems_rebuild [of r out "[]"] cs by simp
  show ?thesis
  proof (cases r)
    case True
    then show ?thesis using sj rb by (simp add: render_def clean_elems_Cons clean_step_def)
  next
    case nr: False
    then show ?thesis using sj rb ne by (simp add: render_def)
  qed
qed

lemma render_nonempty [simp]: "render r out \<noteq> []"
  by (simp add: render_def Let_def)

lemma render_rooted:
  "clean_stack r out \<Longrightarrow> (hd (render r out) = Separator) = r"
proof (cases r)
  case True
  then show ?thesis by (simp add: render_def)
next
  case False
  assume cs: "clean_stack r out"
  show ?thesis
  proof (cases "out = []")
    case True
    then show ?thesis using False by (simp add: render_def Separator_def)
  next
    case ne: False
    have ne': "rev out \<noteq> []" using ne by simp
    have hne: "hd (rev out) \<noteq> []"
      using clean_stack_nonempty_elem [OF cs, of "hd (rev out)"] ne'
      by (metis hd_in_set set_rev)
    have "Separator \<notin> set (hd (rev out))"
      using clean_stack_sep_free [OF cs, of "hd (rev out)"] ne'
      by (metis hd_in_set set_rev)
    then have "hd (hd (rev out)) \<noteq> Separator" using hne
      by (cases "hd (rev out)") auto
    moreover have "join_path (rev out) \<noteq> []"
      using join_path_eq_Nil [of "rev out"] clean_stack_nonempty_elem [OF cs] ne by simp
    ultimately show ?thesis
      using False join_path_hd [OF ne' hne] by (simp add: render_def)
  qed
qed

lemma Clean_render: "Clean path = render (rooted path) (clean_out path)"
proof (cases "path = []")
  case True
  then show ?thesis by (simp add: Clean_def clean_out_def rooted_def render_def)
next
  case False
  then show ?thesis by (simp add: Clean_def clean_out_def rooted_def Let_def)
qed

lemma clean_out_stack: "clean_stack (rooted path) (clean_out path)"
  using clean_elems_clean_stack [of "rooted path" "[]" "split_path path"] split_path_no_sep
  by (auto simp: clean_out_def rooted_def)

lemma rooted_Clean [simp]: "rooted (Clean path) = rooted path"
  using render_rooted [OF clean_out_stack, of path]
  by (simp add: Clean_render rooted_def)

lemma clean_out_Clean [simp]: "clean_out (Clean path) = clean_out path"
proof -
  have "clean_out (Clean path) = clean_elems (rooted (Clean path)) [] (split_path (Clean path))"
    by (simp add: clean_out_def rooted_def Clean_render)
  also have "\<dots> = clean_elems (rooted path) [] (split_path (render (rooted path) (clean_out path)))"
    by (simp add: Clean_render [symmetric])
  also have "\<dots> = clean_out path"
    by (rule clean_elems_render [OF clean_out_stack])
  finally show ?thesis .
qed

lemma Clean_idem [simp]: "Clean (Clean path) = Clean path"
  by (simp add: Clean_render [of "Clean path"]) (simp add: Clean_render)

text \<open>Cleaning a clean path followed by a separator and more text continues the loop
  from the stack of the clean path.\<close>

lemma Clean_append:
  "Clean (Clean d @ Separator # s) = render (rooted d) (clean_elems (rooted d) (clean_out d) (split_path s))"
proof -
  let ?X = "Clean d"
  have ne: "?X @ Separator # s \<noteq> []" by simp
  have r: "rooted (?X @ Separator # s) = rooted d"
    using rooted_Clean [of d] by (simp add: rooted_def Clean_render hd_append)
  have "clean_out (?X @ Separator # s)
        = clean_elems (rooted d) [] (split_path ?X @ split_path s)"
    using r by (simp add: clean_out_def rooted_def split_path_append)
  also have "\<dots> = clean_elems (rooted d) (clean_elems (rooted d) [] (split_path ?X)) (split_path s)"
    by (simp add: clean_elems_append)
  also have "clean_elems (rooted d) [] (split_path ?X) = clean_out d"
    using clean_elems_render [OF clean_out_stack, of d] by (simp add: Clean_render)
  finally show ?thesis using r by (simp add: Clean_render [of "?X @ Separator # s"])
qed

lemma Clean_trailing_sep [simp]: "Clean (Clean d @ [Separator]) = Clean d"
proof -
  have "Clean (Clean d @ [Separator]) = render (rooted d) (clean_elems (rooted d) (clean_out d) [[]])"
    using Clean_append [of d "[]"] by simp
  also have "\<dots> = render (rooted d) (clean_out d)"
    by (simp add: clean_elems_Cons clean_step_def)
  finally show ?thesis by (simp only: Clean_render [of d])
qed



section \<open>Name resolution\<close>

lemma rooted_render: "clean_stack r out \<Longrightarrow> rooted (render r out) = r"
  using render_rooted [of r out] by (simp add: rooted_def)

lemma clean_out_render: "clean_stack r out \<Longrightarrow> clean_out (render r out) = out"
  using clean_elems_render [of r out] render_rooted [of r out] by (simp add: clean_out_def)

lemma Clean_render_id: "clean_stack r out \<Longrightarrow> Clean (render r out) = render r out"
  by (simp add: Clean_render [of "render r out"] rooted_render clean_out_render)

lemma Join_render_step:
  assumes "clean_stack r out" and "Separator \<notin> set e"
  shows "Join [render r out, e] = render r (clean_step r out e)"
proof -
  have "Join [render r out, e] = Clean (Clean (render r out) @ Separator # e)"
    using assms(1) by (simp add: Clean_render_id)
  also have "\<dots> = render r (clean_elems r out (split_path e))"
    using assms(1) by (simp only: Clean_append rooted_render clean_out_render)
  also have "\<dots> = render r (clean_step r out e)"
    using assms(2) by (simp add: split_path_sep_free clean_elems_Cons)
  finally show ?thesis .
qed

text \<open>A name that the kernel resolves is resolved to its cleaned form.\<close>

lemma walk_stack:
  assumes "clean_stack r out" and "\<forall>e \<in> set es. Separator \<notin> set e"
    and "walk fs (render r out) es = Inr p"
  shows "p = render r (clean_elems r out es)"
  using assms
proof (induction es arbitrary: out)
  case Nil
  then show ?case by simp
next
  case (Cons e es)
  have sf: "Separator \<notin> set e" using Cons.prems(2) by simp
  from Cons.prems(3) have w: "walk fs (Join [render r out, e]) es = Inr p"
    by (auto simp del: Join.simps split: option.splits node.splits)
  have cs: "clean_stack r (clean_step r out e)"
    by (rule clean_step_clean_stack [OF Cons.prems(1) sf])
  from w have "walk fs (render r (clean_step r out e)) es = Inr p"
    by (simp only: Join_render_step [OF Cons.prems(1) sf])
  from Cons.IH [OF cs _ this] Cons.prems(2) show ?case by (simp add: clean_elems_Cons)
qed

lemma start_dir_render: "name \<noteq> [] \<Longrightarrow> start_dir name = render (rooted name) []"
  by (simp add: start_dir_def render_def rooted_def)

lemma walk_from_start:
  assumes "name \<noteq> []" and "\<forall>e \<in> set es. Separator \<notin> set e"
    and "walk fs (start_dir name) es = Inr p"
  shows "p = render (rooted name) (clean_elems (rooted name) [] es)"
  using walk_stack [of "rooted name" "[]" es fs p] assms by (simp add: start_dir_render)

lemma resolve_Clean: "resolve fs name = Inr p \<Longrightarrow> p = Clean name"
proof -
  assume r: "resolve fs name = Inr p"
  then have ne: "name \<noteq> []" by (auto simp: resolve_def split: if_splits)
  with r have "walk fs (start_dir name) (split_path name) = Inr p" by (simp add: resolve_def)
  from walk_from_start [OF ne _ this] split_path_no_sep
  have "p = render (rooted name) (clean_elems (rooted name) [] (split_path name))" by blast
  then show ?thesis using ne by (simp add: Clean_render clean_out_def rooted_def)
qed

lemma resolve_parent_key:
  assumes "name \<noteq> []" and "resolve_parent fs name (split_path name) = Inr d"
  shows "Join [d, last (split_path name)] = Clean name"
proof -
  let ?es = "split_path name"
  let ?r = "rooted name"
  have sf: "\<forall>e \<in> set ?es. Separator \<notin> set e" using split_path_no_sep by blast
  then have sfb: "\<forall>e \<in> set (butlast ?es). Separator \<notin> set e"
    by (meson in_set_butlastD)
  have sfl: "Separator \<notin> set (last ?es)" using sf by simp
  from assms(2) have w: "walk fs (start_dir name) (butlast ?es) = Inr d"
    by (auto simp: resolve_parent_def split: sum.splits option.splits node.splits)
  have d: "d = render ?r (clean_elems ?r [] (butlast ?es))"
    by (rule walk_from_start [OF assms(1) sfb w])
  have cs: "clean_stack ?r (clean_elems ?r [] (butlast ?es))"
    using clean_elems_clean_stack [of ?r "[]" "butlast ?es"] sfb by simp
  have "Join [d, last ?es] = render ?r (clean_step ?r (clean_elems ?r [] (butlast ?es)) (last ?es))"
    unfolding d by (rule Join_render_step [OF cs sfl])
  also have "\<dots> = render ?r (clean_elems ?r [] (butlast ?es @ [last ?es]))"
    by (simp add: clean_elems_def del: append_butlast_last_id)
  also have "\<dots> = render ?r (clean_elems ?r [] ?es)" by simp
  also have "\<dots> = Clean name"
    using assms(1) by (simp add: Clean_render clean_out_def rooted_def)
  finally show ?thesis .
qed

lemma os_Open_resolved:
  "os_Open fs name = Inr f \<Longrightarrow> offset f = 0 \<and> fs (Clean name) = Some (fnode f)"
  using resolve_Clean [of fs name]
  by (auto simp: os_Open_def split: sum.splits option.splits)

section \<open>Path safety\<close>

lemma HasPrefix_longer [simp]: "\<not> HasPrefix X (X @ [c])"
  by (simp add: HasPrefix_def)

lemma Join_cleanDest: "Join [Clean d @ [Separator], n] = Clean (Clean d @ Separator # n)"
proof -
  have "Join [Clean d @ [Separator], n] = Clean (Clean d @ Separator # Separator # n)"
    by simp
  also have "\<dots> = render (rooted d) (clean_elems (rooted d) (clean_out d) (split_path (Separator # n)))"
    by (rule Clean_append)
  also have "\<dots> = render (rooted d) (clean_elems (rooted d) (clean_out d) (split_path n))"
    by (simp add: clean_elems_Cons clean_step_def)
  also have "\<dots> = Clean (Clean d @ Separator # n)"
    by (rule Clean_append [symmetric])
  finally show ?thesis .
qed

lemma safeJoin_eq:
  "safeJoin d n =
     (if HasPrefix (Clean (Clean d @ Separator # n)) (Clean d @ [Separator])
      then Inr (Clean (Clean d @ Separator # n))
      else Inl (IllegalFilePath (Clean (Clean d @ Separator # n))))"
  unfolding safeJoin_def validatePath_def Let_def Join_cleanDest
  by simp

lemma safeJoin_cleanDest: "safeJoin (Clean d @ [Separator]) n = safeJoin d n"
  by (simp add: safeJoin_eq)

lemma Clean_append_dots:
  assumes "\<forall>e \<in> set (split_path n). e = [] \<or> e = ''.''"
  shows "Clean (Clean d @ Separator # n) = Clean d"
proof -
  have "clean_elems r out es = out" if "\<forall>e \<in> set es. e = [] \<or> e = ''.''" for r out es
    using that by (induction es) (auto simp: clean_elems_Cons clean_step_def)
  then show ?thesis
    using assms by (simp add: Clean_append) (simp add: Clean_render)
qed

lemma safeJoin_root:
  "Clean (Clean d @ Separator # n) = Clean d \<Longrightarrow> safeJoin d n = Inl (IllegalFilePath (Clean d))"
  by (simp add: safeJoin_eq)

lemma range_files_fails:
  assumes "file \<in> set files" and "\<And>fs. \<exists>e. body fs file = (Some e, fs)"
  shows "\<exists>err fs'. range_files body ctx i fs files = (Some err, fs')"
  using assms(1)
proof (induction files arbitrary: i fs)
  case Nil
  then show ?case by simp
next
  case (Cons a files)
  show ?case
  proof (cases "ctx i")
    case (Some e)
    then show ?thesis by simp
  next
    case None
    obtain r fs1 where b: "body fs a = (r, fs1)" by (cases "body fs a")
    show ?thesis
    proof (cases r)
      case (Some e)
      with None b show ?thesis by simp
    next
      case rn: None
      have "a \<noteq> file" using assms(2) [of fs] b rn by auto
      with Cons.prems have "file \<in> set files" by simp
      from Cons.IH [OF this, of "Suc i" fs1] show ?thesis using None b rn by simp
    qed
  qed
qed

lemma ExtractTar_loop_fails:
  assumes "header \<in> set headers" and "\<And>fs. \<exists>e. ExtractTar_entry cd fs header = (Some e, fs)"
  shows "\<exists>err fs'. ExtractTar_loop ctx i cd fs headers eof = (Some err, fs')"
  using assms(1)
proof (induction headers arbitrary: i fs)
  case Nil
  then show ?case by simp
next
  case (Cons a headers)
  show ?case
  proof (cases "ctx i")
    case (Some e)
    then show ?thesis by simp
  next
    case None
    obtain r fs1 where b: "ExtractTar_entry cd fs a = (r, fs1)" by (cases "ExtractTar_entry cd fs a")
    show ?thesis
    proof (cases r)
      case (Some e)
      with None b show ?thesis by simp
    next
      case rn: None
      have "a \<noteq> header" using assms(2) [of fs] b rn by auto
      with Cons.prems have "header \<in> set headers" by simp
      from Cons.IH [OF this, of "Suc i" fs1] show ?thesis using None b rn by simp
    qed
  qed
qed

text \<open>An entry whose name \<open>safeJoin\<close> rejects ends each adapter with an error.\<close>

lemma ExtractZip_rejects:
  assumes "zip_OpenReader c fs src = Inr files" and "file \<in> set files"
    and "safeJoin dest (Name file) = Inl e"
  shows "\<exists>err fs'. ExtractZip c ctx fs src dest = (Inl err, fs')"
proof (cases "CreateDir fs dest")
  case (Inl err)
  with assms(1) show ?thesis by (simp add: ExtractZip_def)
next
  case (Inr fs1)
  have "\<And>fs. \<exists>e'. ExtractZip_entry (Clean dest @ [Separator]) fs file = (Some e', fs)"
    using assms(3) by (simp add: ExtractZip_entry_def safeJoin_cleanDest)
  from range_files_fails [where body = "ExtractZip_entry (Clean dest @ [Separator])"
      and ctx = ctx and i = 0 and fs = fs1, OF assms(2) this]
  show ?thesis using assms(1) Inr by (auto simp: ExtractZip_def)
qed

lemma Extract7z_rejects:
  assumes "sevenzip_OpenReader c fs src = Inr files" and "file \<in> set files"
    and "safeJoin dest (Name file) = Inl e"
  shows "\<exists>err fs'. Extract7z c ctx fs src dest = (Inl err, fs')"
proof (cases "Mkdir_if_missing fs dest")
  case (Inl err)
  with assms(1) show ?thesis by (simp add: Extract7z_def)
next
  case (Inr fs1)
  have "\<And>fs. \<exists>e'. Extract7z_entry (Clean dest @ [Separator]) fs file = (Some e', fs)"
    using assms(3) by (simp add: Extract7z_entry_def safeJoin_cleanDest)
  from range_files_fails [where body = "Extract7z_entry (Clean dest @ [Separator])"
      and ctx = ctx and i = 0 and fs = fs1, OF assms(2) this]
  show ?thesis using assms(1) Inr by (auto simp: Extract7z_def)
qed

lemma ExtractTar_rejects:
  assumes "os_Open fs src = Inr file"
    and "ExtractTar_reader c src file = Inr tarReader"
    and "header \<in> set (fst tarReader)"
    and "safeJoin dest (hName header) = Inl e"
  shows "\<exists>err fs'. ExtractTar c ctx fs src dest = (Inl err, fs')"
proof (cases "Mkdir_if_missing fs dest")
  case (Inl err)
  with assms(1,2) show ?thesis by (simp add: ExtractTar_def)
next
  case (Inr fs1)
  have "\<And>fs. \<exists>e'. ExtractTar_entry (Clean dest @ [Separator]) fs header = (Some e', fs)"
    using assms(4) by (simp add: ExtractTar_entry_def safeJoin_cleanDest)
  from ExtractTar_loop_fails [where cd = "Clean dest @ [Separator]"
      and ctx = ctx and i = 0 and fs = fs1 and eof = "snd tarReader", OF assms(3) this]
  show ?thesis using assms(1,2) Inr by (auto simp: ExtractTar_def)
qed


subsection \<open>Path facts of the sample inputs\<close>

lemma Clean_sample:
  "Clean ''/'' = ''/''" "Clean ''/in'' = ''/in''" "Clean ''/out'' = ''/out''"
  "Clean ''/in/pkg.zip'' = ''/in/pkg.zip''" "Clean ''/in/evil.zip'' = ''/in/evil.zip''"
  "Clean ''/in/report.docx'' = ''/in/report.docx''" "Clean ''/in/pkg.7z'' = ''/in/pkg.7z''"
  "Clean ''/in/pkg.tar'' = ''/in/pkg.tar''" "Clean ''/in/dot.tar'' = ''/in/dot.tar''"
  "Clean ''/in/polyglot'' = ''/in/polyglot''" "Clean ''/in/pkg.tar.gz'' = ''/in/pkg.tar.gz''"
  "Clean ''/in/notes.txt'' = ''/in/notes.txt''" "Clean ''/in/fifo'' = ''/in/fifo''"
  "Clean ''/in/none'' = ''/in/none''" "Clean ''/in/.zip'' = ''/in/.zip''"
  "Clean ''/in/poly.docx'' = ''/in/poly.docx''" "Clean ''/out/pkg'' = ''/out/pkg''"
  "Clean ''/out/pkg/a.txt'' = ''/out/pkg/a.txt''"
  "Clean ''/out/pkg/b.txt'' = ''/out/pkg/b.txt''" "Clean ''/out/a.txt'' = ''/out/a.txt''"
  "Clean ''/out/big.bin'' = ''/out/big.bin''" "Clean ''/out/ok.txt'' = ''/out/ok.txt''"
  "Clean ''/out/doc.xml'' = ''/out/doc.xml''"
  "Clean ''up.zip'' = ''up.zip''" "Clean ''..'' = ''..''" "Clean ''../..'' = ''../..''"
  "Clean ''../../x'' = ''../../x''"
  by code_simp+

lemma split_sample:
  "split_path ''/'' = [[], []]" "split_path ''/in'' = [[], ''in'']"
  "split_path ''/out'' = [[], ''out'']"
  "split_path ''/in/pkg.zip'' = [[], ''in'', ''pkg.zip'']"
  "split_path ''/in/evil.zip'' = [[], ''in'', ''evil.zip'']"
  "split_path ''/in/report.docx'' = [[], ''in'', ''report.docx'']"
  "split_path ''/in/pkg.7z'' = [[], ''in'', ''pkg.7z'']"
  "split_path ''/in/pkg.tar'' = [[], ''in'', ''pkg.tar'']"
  "split_path ''/in/dot.tar'' = [[], ''in'', ''dot.tar'']"
  "split_path ''/in/polyglot'' = [[], ''in'', ''polyglot'']"
  "split_path ''/in/pkg.tar.gz'' = [[], ''in'', ''pkg.tar.gz'']"
  "split_path ''/in/notes.txt'' = [[], ''in'', ''notes.txt'']"
  "split_path ''/in/fifo'' = [[], ''in'', ''fifo'']"
  "split_path ''/in/none'' = [[], ''in'', ''none'']"
  "split_path ''/in/.zip'' = [[], ''in'', ''.zip'']"
  "split_path ''/in/poly.docx'' = [[], ''in'', ''poly.docx'']"
  "split_path ''/out/pkg'' = [[], ''out'', ''pkg'']"
  "split_path ''/out/pkg/a.txt'' = [[], ''out'', ''pkg'', ''a.txt'']"
  "split_path ''/out/pkg/b.txt'' = [[], ''out'', ''pkg'', ''b.txt'']"
  "split_path ''/out/a.txt'' = [[], ''out'', ''a.txt'']"
  "split_path ''/out/big.bin'' = [[], ''out'', ''big.bin'']"
  "split_path ''/out/ok.txt'' = [[], ''out'', ''ok.txt'']"
  "split_path ''/in/pkg.zip/'' = [[], ''in'', ''pkg.zip'', []]"
  "split_path ''/out/doc.xml'' = [[], ''out'', ''doc.xml'']"
  "split_path ''up.zip'' = [''up.zip'']" "split_path ''..'' = [''..'']"
  "split_path ''../..'' = [''..'', ''..'']" "split_path ''../../x'' = [''..'', ''..'', ''x'']"
  by code_simp+

lemma Join_sample:
  "Join [''.'', ''..''] = ''..''" "Join [''.'', ''up.zip''] = ''up.zip''"
  "Join [''..'', ''..''] = ''../..''" "Join [''../..'', ''x''] = ''../../x''"
  "Join [''/'', []] = ''/''" "Join [''/'', ''in''] = ''/in''"
  "Join [''/'', ''out''] = ''/out''" "Join [''/in'', ''.zip''] = ''/in/.zip''"
  "Join [''/in'', ''dot.tar''] = ''/in/dot.tar''"
  "Join [''/in'', ''evil.zip''] = ''/in/evil.zip''" "Join [''/in'', ''fifo''] = ''/in/fifo''"
  "Join [''/in'', ''none''] = ''/in/none''"
  "Join [''/in'', ''notes.txt''] = ''/in/notes.txt''"
  "Join [''/in'', ''pkg.7z''] = ''/in/pkg.7z''"
  "Join [''/in'', ''pkg.tar''] = ''/in/pkg.tar''"
  "Join [''/in'', ''pkg.tar.gz''] = ''/in/pkg.tar.gz''"
  "Join [''/in'', ''pkg.zip''] = ''/in/pkg.zip''"
  "Join [''/in'', ''poly.docx''] = ''/in/poly.docx''"
  "Join [''/in'', ''polyglot''] = ''/in/polyglot''"
  "Join [''/in'', ''report.docx''] = ''/in/report.docx''"
  "Join [''/in/pkg.zip'', []] = ''/in/pkg.zip''" "Join [''/out'', ''a.txt''] = ''/out/a.txt''"
  "Join [''/out'', ''big.bin''] = ''/out/big.bin''"
  "Join [''/out'', ''ok.txt''] = ''/out/ok.txt''" "Join [''/out'', ''pkg''] = ''/out/pkg''"
  "Join [''/out/pkg'', ''a.txt''] = ''/out/pkg/a.txt''"
  "Join [''/out/pkg'', ''b.txt''] = ''/out/pkg/b.txt''"
  "Join [''/out'', ''doc.xml''] = ''/out/doc.xml''"
  by code_simp+

lemma maxExtractFileSize_value: "maxExtractFileSize = 5368709120"
  by (simp add: maxExtractFileSize_def)

lemma sample_nodes:
  "sample_fs ''/'' = Some DirNode"
  "sample_fs ''/in'' = Some DirNode"
  "sample_fs ''/out'' = Some DirNode"
  "sample_fs ''/in/none'' = None"
  "sample_fs ''/in/pkg.zip'' = Some (RegFile sample_zip_bytes)"
  "sample_fs ''/in/evil.zip'' = Some (RegFile evil_zip_bytes)"
  "sample_fs ''/in/report.docx'' = Some (RegFile sample_zip_bytes)"
  "sample_fs ''/in/.zip'' = Some (RegFile sample_zip_bytes)"
  "sample_fs ''/in/poly.docx'' = Some (RegFile zip_ustar_bytes)"
  "sample_fs ''/in/pkg.7z'' = Some (RegFile sample_7z_bytes)"
  "sample_fs ''/in/pkg.tar'' = Some (RegFile sample_tar_bytes)"
  "sample_fs ''/in/dot.tar'' = Some (RegFile dot_tar_bytes)"
  "sample_fs ''/in/polyglot'' = Some (RegFile polyglot_bytes)"
  "sample_fs ''/in/pkg.tar.gz'' = Some (RegFile targz_bytes)"
  "sample_fs ''/in/notes.txt'' = Some (RegFile [0x68, 0x69])"
  "sample_fs ''/in/fifo'' = Some (Stream sample_zip_bytes)"
  "sample_fs ''/out/pkg'' = None"
  "sample_fs ''/out/pkg/a.txt'' = None"
  "sample_fs ''/out/pkg/b.txt'' = None"
  "sample_fs ''/out/a.txt'' = None"
  "sample_fs ''/out/big.bin'' = None"
  "sample_fs ''/out/ok.txt'' = None"
  by (simp_all add: sample_fs_def)

text \<open>The names of the sample files as the kernel resolves them; a separator after the
  name of a regular file makes the name fail.\<close>

lemma sample_resolve:
  "resolve sample_fs ''/in'' = Inr ''/in''"
  "resolve sample_fs ''/out'' = Inr ''/out''"
  "resolve sample_fs ''/in/none'' = Inr ''/in/none''"
  "resolve sample_fs ''/in/pkg.zip'' = Inr ''/in/pkg.zip''"
  "resolve sample_fs ''/in/evil.zip'' = Inr ''/in/evil.zip''"
  "resolve sample_fs ''/in/report.docx'' = Inr ''/in/report.docx''"
  "resolve sample_fs ''/in/.zip'' = Inr ''/in/.zip''"
  "resolve sample_fs ''/in/poly.docx'' = Inr ''/in/poly.docx''"
  "resolve sample_fs ''/in/pkg.7z'' = Inr ''/in/pkg.7z''"
  "resolve sample_fs ''/in/pkg.tar'' = Inr ''/in/pkg.tar''"
  "resolve sample_fs ''/in/dot.tar'' = Inr ''/in/dot.tar''"
  "resolve sample_fs ''/in/polyglot'' = Inr ''/in/polyglot''"
  "resolve sample_fs ''/in/pkg.tar.gz'' = Inr ''/in/pkg.tar.gz''"
  "resolve sample_fs ''/in/notes.txt'' = Inr ''/in/notes.txt''"
  "resolve sample_fs ''/in/fifo'' = Inr ''/in/fifo''"
  "resolve sample_fs ''/in/pkg.zip/'' = Inl ENOTDIR"
  by (simp_all add: resolve_def start_dir_def Separator_def split_sample Join_sample
      sample_nodes del: Join.simps split_path.simps)

lemma sample_open:
  "os_Open sample_fs ''/in/pkg.zip'' = Inr \<lparr>fnode = RegFile sample_zip_bytes, offset = 0\<rparr>"
  "os_Open sample_fs ''/in/evil.zip'' = Inr \<lparr>fnode = RegFile evil_zip_bytes, offset = 0\<rparr>"
  "os_Open sample_fs ''/in/report.docx'' = Inr \<lparr>fnode = RegFile sample_zip_bytes, offset = 0\<rparr>"
  "os_Open sample_fs ''/in/.zip'' = Inr \<lparr>fnode = RegFile sample_zip_bytes, offset = 0\<rparr>"
  "os_Open sample_fs ''/in/poly.docx'' = Inr \<lparr>fnode = RegFile zip_ustar_bytes, offset = 0\<rparr>"
  "os_Open sample_fs ''/in/pkg.7z'' = Inr \<lparr>fnode = RegFile sample_7z_bytes, offset = 0\<rparr>"
  "os_Open sample_fs ''/in/pkg.tar'' = Inr \<lparr>fnode = RegFile sample_tar_bytes, offset = 0\<rparr>"
  "os_Open sample_fs ''/in/dot.tar'' = Inr \<lparr>fnode = RegFile dot_tar_bytes, offset = 0\<rparr>"
  "os_Open sample_fs ''/in/polyglot'' = Inr \<lparr>fnode = RegFile polyglot_bytes, offset = 0\<rparr>"
  "os_Open sample_fs ''/in/pkg.tar.gz'' = Inr \<lparr>fnode = RegFile targz_bytes, offset = 0\<rparr>"
  "os_Open sample_fs ''/in/notes.txt'' = Inr \<lparr>fnode = RegFile [0x68, 0x69], offset = 0\<rparr>"
  "os_Open sample_fs ''/in/fifo'' = Inr \<lparr>fnode = Stream sample_zip_bytes, offset = 0\<rparr>"
  "os_Open sample_fs ''/in'' = Inr \<lparr>fnode = DirNode, offset = 0\<rparr>"
  "os_Open sample_fs ''/in/none'' = Inl ENOENT"
  "os_Open sample_fs ''/in/pkg.zip/'' = Inl ENOTDIR"
  by (simp_all add: os_Open_def sample_resolve sample_nodes)

subsection \<open>Containment\<close>

lemma HasPrefix_strict: "HasPrefix p (X @ [c]) \<Longrightarrow> p \<noteq> X"
  by (auto simp: HasPrefix_def)

lemma safeJoin_Inr:
  assumes "safeJoin destDir fileName = Inr p"
  shows "p = Join [Clean destDir @ [Separator], fileName] \<and> Clean p = p
         \<and> HasPrefix (Clean p) (Clean destDir @ [Separator]) \<and> p \<noteq> Clean destDir"
proof -
  from assms have p: "p = Clean (Clean destDir @ Separator # fileName)"
    and h: "HasPrefix (Clean (Clean destDir @ Separator # fileName)) (Clean destDir @ [Separator])"
    by (auto simp: safeJoin_eq split: if_splits)
  from p h show ?thesis
    using HasPrefix_strict [of p "Clean destDir" Separator] Join_cleanDest [of destDir fileName]
    by (simp del: Join.simps)
qed

lemma safeJoin_Inl:
  assumes "\<not> HasPrefix (Clean (Join [Clean destDir @ [Separator], fileName])) (Clean destDir @ [Separator])"
  shows "safeJoin destDir fileName = Inl (IllegalFilePath (Join [Clean destDir @ [Separator], fileName]))"
  using assms by (simp add: Join_cleanDest safeJoin_eq del: Join.simps)

lemma join_split_path [simp]: "join_path (split_path s) = s"
proof (induction s)
  case Nil
  show ?case by simp
next
  case (Cons c s)
  obtain x xs where sp: "split_path s = x # xs" by (cases "split_path s") auto
  show ?case
  proof (cases "c = Separator")
    case True
    then show ?thesis using Cons sp by simp
  next
    case False
    then show ?thesis using Cons sp by (cases xs) simp_all
  qed
qed

lemma clean_stack_above_ordinary:
  "clean_stack r (xs @ out) \<Longrightarrow> out \<noteq> [] \<Longrightarrow> hd out \<noteq> ''..'' \<Longrightarrow> \<forall>e \<in> set xs. ordinary e"
proof (induction xs)
  case Nil
  then show ?case by simp
next
  case (Cons x xs)
  have nd: "x \<noteq> ''..''"
  proof
    assume "x = ''..''"
    with Cons.prems(1) have "\<forall>y \<in> set (xs @ out). y = ''..''" by simp
    then have "hd out = ''..''" using Cons.prems(2) by (cases out) auto
    with Cons.prems(3) show False by simp
  qed
  with Cons.prems(1) have "ordinary x" and "clean_stack r (xs @ out)" by simp_all
  with Cons.IH Cons.prems(2,3) show ?case by simp
qed

lemma clean_stack_elem: "clean_stack r out \<Longrightarrow> e \<in> set out \<Longrightarrow> ordinary e \<or> e = ''..''"
proof (induction out)
  case Nil
  then show ?case by simp
next
  case (Cons a out)
  show ?case
  proof (cases "a = ''..''")
    case True
    with Cons.prems show ?thesis by auto
  next
    case False
    with Cons.prems have "ordinary a" and "clean_stack r out" by simp_all
    then show ?thesis using Cons.IH Cons.prems(2) by auto
  qed
qed

lemma clean_stack_hd_join:
  assumes "clean_stack r out" and "out \<noteq> []"
  shows "join_path (rev out) \<noteq> []" and "hd (join_path (rev out)) \<noteq> Separator"
    and "split_path (join_path (rev out)) = rev out"
proof -
  have ne: "rev out \<noteq> []" using assms(2) by simp
  have el: "\<forall>e \<in> set (rev out). e \<noteq> []"
    using clean_stack_nonempty_elem [OF assms(1)] by simp
  have sf: "\<forall>e \<in> set (rev out). Separator \<notin> set e"
    using clean_stack_sep_free [OF assms(1)] by simp
  show "join_path (rev out) \<noteq> []" using join_path_eq_Nil [OF el] ne by simp
  have h: "hd (rev out) \<in> set (rev out)" using ne by (rule hd_in_set)
  then have hne: "hd (rev out) \<noteq> []" using el by blast
  have "Separator \<notin> set (hd (rev out))" using sf h by blast
  then have "hd (hd (rev out)) \<noteq> Separator" using hne by (cases "hd (rev out)") auto
  then show "hd (join_path (rev out)) \<noteq> Separator" using join_path_hd [OF ne hne] by simp
  show "split_path (join_path (rev out)) = rev out" by (rule split_join_path [OF ne sf])
qed

text \<open>
  What the prefix test of \<open>validatePath\<close> means for the elements of the path. When the
  cleaned destination root does not end in a \<open>..\<close> element, the path that \<open>safeJoin\<close>
  returns is the cleaned root followed by one or more ordinary elements: it names a
  place below the root. (A root that cleans to \<open>.\<close> or to \<open>/\<close> has no path that passes.)
\<close>

lemma safeJoin_descendant:
  assumes sj: "safeJoin destDir fileName = Inr p"
    and top: "clean_out destDir \<noteq> [] \<longrightarrow> hd (clean_out destDir) \<noteq> ''..''"
  shows "\<exists>es. es \<noteq> [] \<and> (\<forall>e \<in> set es. ordinary e)
              \<and> p = Clean destDir @ Separator # join_path es"
proof -
  let ?r = "rooted destDir"
  let ?out = "clean_out destDir"
  let ?out' = "clean_elems ?r ?out (split_path fileName)"
  let ?R = "Clean destDir"
  from sj have p: "p = Clean (?R @ Separator # fileName)"
    and hp: "HasPrefix p (?R @ [Separator])"
    by (auto simp: safeJoin_eq split: if_splits)
  have pr: "p = render ?r ?out'" using p by (simp only: Clean_append)
  have R: "?R = render ?r ?out" by (rule Clean_render)
  have cs: "clean_stack ?r ?out" by (rule clean_out_stack)
  have cs': "clean_stack ?r ?out'"
    using clean_elems_clean_stack [OF cs] split_path_no_sep by blast
  define rest where "rest = drop (length (?R @ [Separator])) p"
  have prest: "p = ?R @ Separator # rest"
    using hp unfolding HasPrefix_def rest_def
    by (metis append_take_drop_id append.assoc append_Cons append_Nil)
  text \<open>The elements of the path are those of the root followed by those of the rest.\<close>
  have els: "?out \<noteq> [] \<and> rev ?out' = rev ?out @ split_path rest"
  proof (cases ?r)
    case True
    then have eq: "join_path (rev ?out') = join_path (rev ?out) @ Separator # rest"
      using prest pr R by (simp add: render_def)
    show ?thesis
    proof (cases "?out = []")
      case e: True
      then have j: "join_path (rev ?out') = Separator # rest" using eq by simp
      then have "?out' \<noteq> []" by auto
      from clean_stack_hd_join(2) [OF cs' this] j show ?thesis by simp
    next
      case ne: False
      have "join_path (rev ?out') \<noteq> []" using eq by simp
      then have ne': "?out' \<noteq> []" by auto
      have "rev ?out' = split_path (join_path (rev ?out'))"
        using clean_stack_hd_join(3) [OF cs' ne'] by simp
      also have "\<dots> = split_path (join_path (rev ?out)) @ split_path rest"
        by (simp only: eq split_path_append)
      also have "\<dots> = rev ?out @ split_path rest"
        using clean_stack_hd_join(3) [OF cs ne] by simp
      finally show ?thesis using ne by simp
    qed
  next
    case False
    have ne': "?out' \<noteq> []"
    proof
      assume "?out' = []"
      then have "length p = 1" using pr False by (simp add: render_def)
      moreover have "?R \<noteq> []" using R by simp
      then have "2 \<le> length (?R @ Separator # rest)" by (cases ?R) simp_all
      ultimately show False using prest by simp
    qed
    have pj: "p = join_path (rev ?out')"
      using pr False clean_stack_hd_join(1) [OF cs' ne'] by (simp add: render_def)
    have sp': "rev ?out' = split_path p"
      using clean_stack_hd_join(3) [OF cs' ne'] pj by simp
    show ?thesis
    proof (cases "?out = []")
      case e: True
      then have "?R = ''.''" using R False by (simp add: render_def)
      then have "split_path p = ''.'' # split_path rest"
        using prest split_path_append [of "''.''" rest] by (simp add: Separator_def)
      then have "''.'' \<in> set ?out'" using sp' by (metis list.set_intros(1) set_rev)
      then have "ordinary ''.'' \<or> ''.'' = ''..''"
        using clean_stack_elem [OF cs'] by blast
      then show ?thesis by (simp add: ordinary_def)
    next
      case ne: False
      have Rj: "?R = join_path (rev ?out)"
        using R False clean_stack_hd_join(1) [OF cs ne] by (simp add: render_def)
      have "rev ?out' = split_path (?R @ Separator # rest)" using sp' prest by simp
      also have "\<dots> = split_path ?R @ split_path rest" by (rule split_path_append)
      also have "\<dots> = rev ?out @ split_path rest"
        using clean_stack_hd_join(3) [OF cs ne] Rj by simp
      finally show ?thesis using ne by simp
    qed
  qed
  then have ne: "?out \<noteq> []" and rv: "rev ?out' = rev ?out @ split_path rest"
    by simp_all
  have "rev (rev ?out') = rev (rev ?out @ split_path rest)" by (simp only: rv)
  then have "?out' = rev (split_path rest) @ ?out" by simp
  with cs' top ne have "\<forall>e \<in> set (rev (split_path rest)). ordinary e"
    using clean_stack_above_ordinary [of ?r "rev (split_path rest)" ?out] by simp
  then have "\<forall>e \<in> set (split_path rest). ordinary e" by simp
  moreover have "p = ?R @ Separator # join_path (split_path rest)" using prest by simp
  ultimately show ?thesis using split_path_nonempty by blast
qed


lemma join_path_snoc:
  "join_path (xs @ [y]) = (if xs = [] then y else join_path xs @ Separator # y)"
  by (induction xs rule: join_path.induct) simp_all

lemma clean_out_dotdot_top:
  assumes "clean_out d \<noteq> []" and "hd (clean_out d) = ''..''"
  shows "Clean d = ''..'' \<or> HasSuffix (Clean d) ''/..''"
proof -
  obtain out where o: "clean_out d = ''..'' # out" using assms by (cases "clean_out d") auto
  have cs: "clean_stack (rooted d) (''..'' # out)" using clean_out_stack [of d] o by simp
  then have nr: "\<not> rooted d" by simp
  have j: "join_path (rev (''..'' # out))
      = (if rev out = [] then ''..'' else join_path (rev out) @ Separator # ''..'')"
    using join_path_snoc [of "rev out" "''..''"] by simp
  have ne: "join_path (rev (''..'' # out)) \<noteq> []"
    using clean_stack_hd_join(1) [OF cs] by simp
  have "Clean d = join_path (rev (''..'' # out))"
    using nr o ne by (simp add: Clean_render render_def del: rev.simps)
  with j show ?thesis by (auto simp: HasSuffix_def Separator_def)
qed

lemma safeJoin_below_root:
  assumes "safeJoin destDir fileName = Inr p"
    and "Clean destDir \<noteq> ''..''" and "\<not> HasSuffix (Clean destDir) ''/..''"
  shows "\<exists>es. es \<noteq> [] \<and> (\<forall>e \<in> set es. ordinary e)
              \<and> p = Clean destDir @ Separator # join_path es"
  using safeJoin_descendant [OF assms(1)] clean_out_dotdot_top [of destDir] assms(2,3)
  by blast

text \<open>
  What holds for every destination root. \<open>safeJoin\<close> returns a path only when that
  path, which is the cleaned join of the cleaned destination root and the entry name, has
  the cleaned root followed by the separator as a prefix (so it is not the root itself).
  For an entry name whose cleaned join lacks that prefix \<open>safeJoin\<close> returns the
  illegal-file-path error and no path; the body of each adapter then ends with that error
  and leaves the file system as it was, and \<open>ExtractZip\<close>, \<open>Extract7z\<close> and \<open>ExtractTar\<close>
  return an error for every archive that holds such an entry. For every root whose
  cleaned form does not end in a \<open>..\<close> element the prefix means that the path returned
  is the root followed by one or more ordinary elements.
\<close>

lemma safeJoin_path_containment:
  "(safeJoin destDir fileName = Inr p \<longrightarrow>
      p = Join [Clean destDir @ [Separator], fileName] \<and> Clean p = p
      \<and> HasPrefix (Clean p) (Clean destDir @ [Separator]) \<and> p \<noteq> Clean destDir)
   \<and> (\<not> HasPrefix (Clean (Join [Clean destDir @ [Separator], fileName]))
            (Clean destDir @ [Separator]) \<longrightarrow>
      safeJoin destDir fileName
        = Inl (IllegalFilePath (Join [Clean destDir @ [Separator], fileName]))
      \<and> (\<forall>fs file. Name file = fileName \<longrightarrow>
            ExtractZip_entry (Clean destDir @ [Separator]) fs file
              = (Some (Wrapped ''invalid file path %q: %w'' fileName
                   (IllegalFilePath (Join [Clean destDir @ [Separator], fileName]))), fs))
      \<and> (\<forall>fs file. Name file = fileName \<longrightarrow>
            Extract7z_entry (Clean destDir @ [Separator]) fs file
              = (Some (IllegalFilePath (Join [Clean destDir @ [Separator], fileName])), fs))
      \<and> (\<forall>fs header. hName header = fileName \<longrightarrow>
            ExtractTar_entry (Clean destDir @ [Separator]) fs header
              = (Some (IllegalFilePath (Join [Clean destDir @ [Separator], fileName])), fs))
      \<and> (\<forall>c ctx fs src files file.
            zip_OpenReader c fs src = Inr files \<and> file \<in> set files \<and> Name file = fileName \<longrightarrow>
            (\<exists>err fs'. ExtractZip c ctx fs src destDir = (Inl err, fs')))
      \<and> (\<forall>c ctx fs src files file.
            sevenzip_OpenReader c fs src = Inr files \<and> file \<in> set files \<and> Name file = fileName \<longrightarrow>
            (\<exists>err fs'. Extract7z c ctx fs src destDir = (Inl err, fs')))
      \<and> (\<forall>c ctx fs src f tarReader header.
            os_Open fs src = Inr f \<and> ExtractTar_reader c src f = Inr tarReader
            \<and> header \<in> set (fst tarReader) \<and> hName header = fileName \<longrightarrow>
            (\<exists>err fs'. ExtractTar c ctx fs src destDir = (Inl err, fs'))))
   \<and> (safeJoin destDir fileName = Inr p \<and> Clean destDir \<noteq> ''..''
        \<and> \<not> HasSuffix (Clean destDir) ''/..'' \<longrightarrow>
      (\<exists>es. es \<noteq> [] \<and> (\<forall>e \<in> set es. ordinary e)
            \<and> p = Clean destDir @ Separator # join_path es))"
proof (intro conjI impI allI, goal_cases)
  case 1
  then show ?case using safeJoin_Inr by blast
next
  case 2
  then show ?case using safeJoin_Inr by blast
next
  case 3
  then show ?case using safeJoin_Inr by blast
next
  case 4
  then show ?case using safeJoin_Inr by blast
next
  case 5
  then show ?case by (rule safeJoin_Inl)
next
  case (6 fs en)
  then show ?case
    using safeJoin_Inl [of destDir fileName]
    by (simp add: ExtractZip_entry_def safeJoin_cleanDest del: Join.simps)
next
  case (7 fs en)
  then show ?case
    using safeJoin_Inl [of destDir fileName]
    by (simp add: Extract7z_entry_def safeJoin_cleanDest del: Join.simps)
next
  case (8 fs header)
  then show ?case
    using safeJoin_Inl [of destDir fileName]
    by (simp add: ExtractTar_entry_def safeJoin_cleanDest del: Join.simps)
next
  case (9 c ctx fs src files en)
  then show ?case
    using ExtractZip_rejects [of c fs src files en destDir _ ctx] safeJoin_Inl [of destDir fileName]
    by blast
next
  case (10 c ctx fs src files en)
  then show ?case
    using Extract7z_rejects [of c fs src files en destDir _ ctx] safeJoin_Inl [of destDir fileName]
    by blast
next
  case (11 c ctx fs src f tarReader header)
  then show ?case
    using ExtractTar_rejects [of fs src f c tarReader header destDir _ ctx]
      safeJoin_Inl [of destDir fileName]
    by blast
next
  case 12
  then show ?case using safeJoin_below_root [of destDir fileName p] by blast
qed

lemma sample_join_ok: "safeJoin ''/out'' ''pkg/a.txt'' = Inr ''/out/pkg/a.txt''"
  by code_simp

lemma sample_join_evil:
  "\<not> HasPrefix (Clean (Join [Clean ''/out'' @ [Separator], ''../evil.txt'']))
       (Clean ''/out'' @ [Separator])"
  "Join [Clean ''/out'' @ [Separator], ''../evil.txt''] = ''/evil.txt''"
  by code_simp+

lemma sample_evil_zip: "zip_OpenReader sample_codec sample_fs ''/in/evil.zip'' = Inr evil_files"
  by (simp add: zip_OpenReader_def sample_open sample_codec_def
      evil_zip_bytes_def sample_zip_bytes_def)

lemma sample_root_facts:
  "Clean ''/out'' \<noteq> ''..''" "\<not> HasSuffix (Clean ''/out'') ''/..''"
  by code_simp+

lemma safeJoin_path_containment_sample:
  "safeJoin ''/out'' ''pkg/a.txt'' = Inr ''/out/pkg/a.txt''
   \<and> HasPrefix (Clean ''/out/pkg/a.txt'') (Clean ''/out'' @ [Separator])
   \<and> (\<exists>es. es \<noteq> [] \<and> (\<forall>e \<in> set es. ordinary e)
          \<and> ''/out/pkg/a.txt'' = Clean ''/out'' @ Separator # join_path es)
   \<and> safeJoin ''/out'' ''../evil.txt'' = Inl (IllegalFilePath ''/evil.txt'')
   \<and> (\<exists>err fs'. ExtractZip sample_codec live sample_fs ''/in/evil.zip'' ''/out'' = (Inl err, fs'))"
proof -
  have mem: "\<lparr>Name = ''../evil.txt'', IsDir = False, Mode = 420, Open = Inr ([0x78], None)\<rparr>
      \<in> set evil_files"
    by (simp add: evil_files_def)
  have ok: "HasPrefix (Clean ''/out/pkg/a.txt'') (Clean ''/out'' @ [Separator])
      \<and> (\<exists>es. es \<noteq> [] \<and> (\<forall>e \<in> set es. ordinary e)
            \<and> ''/out/pkg/a.txt'' = Clean ''/out'' @ Separator # join_path es)"
    using safeJoin_path_containment [of "''/out''" "''pkg/a.txt''" "''/out/pkg/a.txt''"]
      sample_join_ok sample_root_facts
    by blast
  have evil: "safeJoin ''/out'' ''../evil.txt'' = Inl (IllegalFilePath ''/evil.txt'')
      \<and> (\<exists>err fs'. ExtractZip sample_codec live sample_fs ''/in/evil.zip'' ''/out''
            = (Inl err, fs'))"
    using safeJoin_path_containment [of "''/out''" "''../evil.txt''" "[]"]
      sample_join_evil sample_evil_zip mem
    by (metis entry.select_convs(1))
  from ok evil sample_join_ok show ?thesis by blast
qed

lemma up_paths:
  "safeJoin ''../'' ''../x'' = Inr ''../../x''" "Dir ''../../x'' = ''../..''"
  "Base (TrimSuffix ''up.zip'' (Ext ''up.zip'')) = ''up''" "Join [''../'', ''up''] = ''../up''"
  by code_simp+

lemma up_nodes:
  "up_fs ''.'' = Some DirNode" "up_fs ''..'' = Some DirNode" "up_fs ''../..'' = Some DirNode"
  "up_fs ''up.zip'' = Some (RegFile up_zip_bytes)" "up_fs ''../../x'' = None"
  by (simp_all add: up_fs_def)

lemma up_zip_opened: "zip_OpenReader sample_codec up_fs ''up.zip'' = Inr up_files"
  by (simp add: zip_OpenReader_def os_Open_def resolve_def start_dir_def Separator_def
      split_sample Join_sample up_nodes sample_codec_def up_zip_bytes_def sample_zip_bytes_def
      evil_zip_bytes_def zip_ustar_bytes_def del: Join.simps split_path.simps)

text \<open>
  C1 fails for a destination root that cleans to \<open>..\<close> (or to a chain of \<open>..\<close>
  elements). The test of \<open>validatePath\<close> compares the characters of the cleaned paths,
  and \<open>../../x\<close> begins with \<open>../\<close>: for the root \<open>..\<close> and the entry name \<open>../x\<close>
  \<open>safeJoin\<close> returns \<open>../../x\<close> and no error, and \<open>ExtractZip\<close> with the destination
  \<open>..\<close> succeeds and writes the entry into the parent of the destination, a directory
  that is not below the destination.
\<close>

theorem safeJoin_dotdot_root_escapes:
  "safeJoin ''..'' ''../x'' = Inr ''../../x''
   \<and> fst (ExtractZip sample_codec live up_fs ''up.zip'' ''..'') = Inr ''../up''
   \<and> snd (ExtractZip sample_codec live up_fs ''up.zip'' ''..'') ''../../x''
       = Some (RegFile [0x78])"
proof -
  have a: "safeJoin ''..'' ''../x'' = Inr ''../../x''" by code_simp
  have b: "fst (ExtractZip sample_codec live up_fs ''up.zip'' ''..'') = Inr ''../up''"
    "snd (ExtractZip sample_codec live up_fs ''up.zip'' ''..'') ''../../x''
       = Some (RegFile [0x78])"
    by (simp_all add: ExtractZip_def up_zip_opened up_files_def ExtractZip_entry_def
        CreateDir_def os_Stat_def os_Create_def os_OpenFile_def resolve_def resolve_parent_def
        start_dir_def io_Copy_def io_LimitReader_def file_Write_def live_def Separator_def
        split_sample Join_sample Clean_sample up_paths up_nodes maxExtractFileSize_value
        del: Join.simps split_path.simps)
  from a b show ?thesis by simp
qed

subsection \<open>Entries that name the destination root\<close>

lemma split_path_sample [simp]:
  "split_path [] = [[]]" "split_path ''.'' = [''.'']" "split_path ''./'' = [''.'', []]"
  by (simp_all add: Separator_def)

lemma safeJoin_root_names:
  "safeJoin d [] = Inl (IllegalFilePath (Clean d))"
  "safeJoin d ''.'' = Inl (IllegalFilePath (Clean d))"
  "safeJoin d ''./'' = Inl (IllegalFilePath (Clean d))"
  by (simp_all add: safeJoin_root Clean_append_dots del: split_path.simps)

text \<open>
  C10. An entry name whose join with the destination root cleans to the root itself is
  rejected by \<open>safeJoin\<close> with the illegal-file-path error, since the root does not have
  the root followed by the separator as a prefix. The empty name, \<open>.\<close> and \<open>./\<close> are such
  names for every root. The body of each adapter ends with that error, and
  \<open>ExtractZip\<close>, \<open>Extract7z\<close> and \<open>ExtractTar\<close> return an error for every archive
  that holds such an entry: the entry is not skipped.
\<close>

theorem safeJoin_rejects_root_entry:
  "safeJoin destDir [] = Inl (IllegalFilePath (Clean destDir))
   \<and> safeJoin destDir ''.'' = Inl (IllegalFilePath (Clean destDir))
   \<and> safeJoin destDir ''./'' = Inl (IllegalFilePath (Clean destDir))
   \<and> (Clean (Join [Clean destDir @ [Separator], fileName]) = Clean destDir \<longrightarrow>
      safeJoin destDir fileName = Inl (IllegalFilePath (Clean destDir))
      \<and> (\<forall>fs file. Name file = fileName \<longrightarrow>
            ExtractZip_entry (Clean destDir @ [Separator]) fs file
              = (Some (Wrapped ''invalid file path %q: %w'' fileName
                   (IllegalFilePath (Clean destDir))), fs))
      \<and> (\<forall>fs file. Name file = fileName \<longrightarrow>
            Extract7z_entry (Clean destDir @ [Separator]) fs file
              = (Some (IllegalFilePath (Clean destDir)), fs))
      \<and> (\<forall>fs header. hName header = fileName \<longrightarrow>
            ExtractTar_entry (Clean destDir @ [Separator]) fs header
              = (Some (IllegalFilePath (Clean destDir)), fs))
      \<and> (\<forall>c ctx fs src files file.
            zip_OpenReader c fs src = Inr files \<and> file \<in> set files \<and> Name file = fileName \<longrightarrow>
            (\<exists>err fs'. ExtractZip c ctx fs src destDir = (Inl err, fs')))
      \<and> (\<forall>c ctx fs src files file.
            sevenzip_OpenReader c fs src = Inr files \<and> file \<in> set files \<and> Name file = fileName \<longrightarrow>
            (\<exists>err fs'. Extract7z c ctx fs src destDir = (Inl err, fs')))
      \<and> (\<forall>c ctx fs src f tarReader header.
            os_Open fs src = Inr f \<and> ExtractTar_reader c src f = Inr tarReader
            \<and> header \<in> set (fst tarReader) \<and> hName header = fileName \<longrightarrow>
            (\<exists>err fs'. ExtractTar c ctx fs src destDir = (Inl err, fs'))))"
proof (intro conjI impI allI, goal_cases)
  case 1
  show ?case by (rule safeJoin_root_names)
next
  case 2
  show ?case by (rule safeJoin_root_names)
next
  case 3
  show ?case by (rule safeJoin_root_names)
next
  case 4
  then show ?case using Join_cleanDest [of destDir fileName]
    by (simp add: safeJoin_root del: Join.simps)
next
  case (5 fs en)
  then show ?case using Join_cleanDest [of destDir fileName]
    by (simp add: ExtractZip_entry_def safeJoin_cleanDest safeJoin_root del: Join.simps)
next
  case (6 fs en)
  then show ?case using Join_cleanDest [of destDir fileName]
    by (simp add: Extract7z_entry_def safeJoin_cleanDest safeJoin_root del: Join.simps)
next
  case (7 fs header)
  then show ?case using Join_cleanDest [of destDir fileName]
    by (simp add: ExtractTar_entry_def safeJoin_cleanDest safeJoin_root del: Join.simps)
next
  case (8 c ctx fs src files en)
  have "safeJoin destDir fileName = Inl (IllegalFilePath (Clean destDir))"
    using 8(1) Join_cleanDest [of destDir fileName] by (simp add: safeJoin_root del: Join.simps)
  then show ?case
    using 8(2) ExtractZip_rejects [of c fs src files en destDir _ ctx] by blast
next
  case (9 c ctx fs src files en)
  have "safeJoin destDir fileName = Inl (IllegalFilePath (Clean destDir))"
    using 9(1) Join_cleanDest [of destDir fileName] by (simp add: safeJoin_root del: Join.simps)
  then show ?case
    using 9(2) Extract7z_rejects [of c fs src files en destDir _ ctx] by blast
next
  case (10 c ctx fs src f tarReader header)
  have "safeJoin destDir fileName = Inl (IllegalFilePath (Clean destDir))"
    using 10(1) Join_cleanDest [of destDir fileName] by (simp add: safeJoin_root del: Join.simps)
  then show ?case
    using 10(2) ExtractTar_rejects [of fs src f c tarReader header destDir _ ctx] by blast
qed

lemma sample_tar_differs: "dot_tar_bytes \<noteq> sample_tar_bytes"
  by (simp add: dot_tar_bytes_def sample_tar_bytes_def)

lemma sample_dot_tar:
  "os_Open sample_fs ''/in/dot.tar'' = Inr \<lparr>fnode = RegFile dot_tar_bytes, offset = 0\<rparr>"
  "ExtractTar_reader sample_codec ''/in/dot.tar'' \<lparr>fnode = RegFile dot_tar_bytes, offset = 0\<rparr>
     = Inr (dot_headers, None)"
  by (simp_all add: sample_open ExtractTar_reader_def HasSuffix_def
      file_stream_def sample_codec_def sample_tar_differs)

lemma sample_join_dot: "Clean (Join [Clean ''/out'' @ [Separator], ''./'']) = Clean ''/out''"
  by code_simp

theorem safeJoin_rejects_root_entry_witness:
  "Clean (Join [Clean ''/out'' @ [Separator], ''./'']) = Clean ''/out''
   \<and> safeJoin ''/out'' ''./'' = Inl (IllegalFilePath ''/out'')
   \<and> (\<exists>err fs'. ExtractTar sample_codec live sample_fs ''/in/dot.tar'' ''/out'' = (Inl err, fs'))"
proof -
  have mem: "\<lparr>hName = ''./'', Typeflag = TypeDir, hMode = 493, hData = ([], None)\<rparr>
      \<in> set (fst (dot_headers, None :: error option))"
    by (simp add: dot_headers_def)
  have nm: "hName \<lparr>hName = ''./'', Typeflag = TypeDir, hMode = 493, hData = ([], None)\<rparr> = ''./''"
    by simp
  from safeJoin_rejects_root_entry [of "''/out''" "''./''"] sample_join_dot
  have a: "safeJoin ''/out'' ''./'' = Inl (IllegalFilePath (Clean ''/out''))"
    and b: "\<forall>c ctx fs src f tarReader header.
            os_Open fs src = Inr f \<and> ExtractTar_reader c src f = Inr tarReader
            \<and> header \<in> set (fst tarReader) \<and> hName header = ''./'' \<longrightarrow>
            (\<exists>err fs'. ExtractTar c ctx fs src ''/out'' = (Inl err, fs'))"
    by blast+
  from b sample_dot_tar mem nm
  have "\<exists>err fs'. ExtractTar sample_codec live sample_fs ''/in/dot.tar'' ''/out'' = (Inl err, fs')"
    by blast
  with a sample_join_dot show ?thesis by (simp add: Clean_sample)
qed


section \<open>Detection\<close>

lemma byte_of_char_of: "of_char (char_of (unat (b :: byte))) = unat b"
proof -
  have "unat b < 256" using unsigned_less [of b] by simp
  then show ?thesis by (simp add: of_char_of)
qed

lemma string_of_bytes_inj: "string_of_bytes xs = string_of_bytes ys \<Longrightarrow> xs = ys"
proof (induction xs arbitrary: ys)
  case Nil
  then show ?case by (simp add: string_of_bytes_def)
next
  case (Cons x xs)
  then obtain y ys' where ys: "ys = y # ys'"
    by (cases ys) (auto simp: string_of_bytes_def)
  from Cons.prems ys have c: "char_of (unat x) = char_of (unat y)"
    and r: "string_of_bytes xs = string_of_bytes ys'"
    by (simp_all add: string_of_bytes_def)
  from c have "of_char (char_of (unat x)) = (of_char (char_of (unat y)) :: nat)" by simp
  then have "unat x = unat y" by (simp only: byte_of_char_of)
  then have "x = y" by (simp add: word_unat_eq_iff)
  with Cons.IH [OF r] ys show ?case by simp
qed

lemma ustar_bytes: "string_of_bytes [0x75, 0x73, 0x74, 0x61, 0x72] = ''ustar''"
  by code_simp

lemma HasPrefix_ustar:
  "HasPrefix (string_of_bytes got) ''ustar'' \<longleftrightarrow> take 5 got = [0x75, 0x73, 0x74, 0x61, 0x72]"
proof
  have l5: "length ''ustar'' = 5" by simp
  assume "HasPrefix (string_of_bytes got) ''ustar''"
  then have "take 5 (string_of_bytes got) = ''ustar''"
    unfolding HasPrefix_def l5 by blast
  then have "string_of_bytes (take 5 got) = string_of_bytes [0x75, 0x73, 0x74, 0x61, 0x72]"
    by (simp only: ustar_bytes) (simp add: string_of_bytes_def take_map)
  then show "take 5 got = [0x75, 0x73, 0x74, 0x61, 0x72]" by (rule string_of_bytes_inj)
next
  have l5: "length ''ustar'' = 5" by simp
  assume t: "take 5 got = [0x75, 0x73, 0x74, 0x61, 0x72]"
  then have "length (take 5 got) = 5" by simp
  then have len: "5 \<le> length (string_of_bytes got)" by (simp add: string_of_bytes_def)
  have "take 5 (string_of_bytes got) = string_of_bytes (take 5 got)"
    by (simp add: string_of_bytes_def take_map)
  also have "\<dots> = ''ustar''" by (simp only: t ustar_bytes)
  finally show "HasPrefix (string_of_bytes got) ''ustar''"
    unfolding HasPrefix_def l5 using len by blast
qed

text \<open>What each classifier computes, by the kind of node at the path.\<close>

lemma padded_eq4:
  "take 4 bs @ replicate (4 - length (take 4 bs)) (0 :: byte) = [0x50, 0x4B, 0x03, 0x04]
   \<longleftrightarrow> take 4 bs = [0x50, 0x4B, 0x03, 0x04]"
proof (cases "4 \<le> length bs")
  case True
  then show ?thesis by simp
next
  case False
  then have l: "length bs < 4" by simp
  then have "last (take 4 bs @ replicate (4 - length (take 4 bs)) (0 :: byte)) = 0" by simp
  moreover have "last [0x50, 0x4B, 0x03, 0x04 :: byte] \<noteq> 0" by simp
  moreover have "length (take 4 bs) \<noteq> length [0x50, 0x4B, 0x03, 0x04 :: byte]" using l by simp
  ultimately show ?thesis by metis
qed

lemma padded_eq6:
  "take 6 bs @ replicate (6 - length (take 6 bs)) (0 :: byte) = [0x37, 0x7A, 0xBC, 0xAF, 0x27, 0x1C]
   \<longleftrightarrow> take 6 bs = [0x37, 0x7A, 0xBC, 0xAF, 0x27, 0x1C]"
proof (cases "6 \<le> length bs")
  case True
  then show ?thesis by simp
next
  case False
  then have l: "length bs < 6" by simp
  then have "last (take 6 bs @ replicate (6 - length (take 6 bs)) (0 :: byte)) = 0" by simp
  moreover have "last [0x37, 0x7A, 0xBC, 0xAF, 0x27, 0x1C :: byte] \<noteq> 0" by simp
  moreover have "length (take 6 bs) \<noteq> length [0x37, 0x7A, 0xBC, 0xAF, 0x27, 0x1C :: byte]"
    using l by simp
  ultimately show ?thesis by metis
qed

lemma IsZipFile_iff:
  "IsZipFile fs path \<longleftrightarrow>
     (\<exists>f bs. os_Open fs path = Inr f \<and> (fnode f = RegFile bs \<or> fnode f = Stream bs)
             \<and> take 4 bs = [0x50, 0x4B, 0x03, 0x04])"
proof (cases "os_Open fs path")
  case (Inl e)
  then show ?thesis by (simp add: IsZipFile_def)
next
  case (Inr f)
  then have o: "offset f = 0" using os_Open_resolved by blast
  show ?thesis
  proof (cases "fnode f")
    case (RegFile bs)
    with Inr o show ?thesis
      using padded_eq4 [of bs] by (cases "bs = []") (auto simp: IsZipFile_def file_Read_def)
  next
    case DirNode
    with Inr show ?thesis by (simp add: IsZipFile_def file_Read_def)
  next
    case (Stream bs)
    with Inr o show ?thesis
      using padded_eq4 [of bs] by (cases "bs = []") (auto simp: IsZipFile_def file_Read_def)
  qed
qed

lemma Is7zFile_iff:
  "Is7zFile fs path \<longleftrightarrow>
     (\<exists>f bs. os_Open fs path = Inr f \<and> (fnode f = RegFile bs \<or> fnode f = Stream bs)
             \<and> take 6 bs = [0x37, 0x7A, 0xBC, 0xAF, 0x27, 0x1C])"
proof (cases "os_Open fs path")
  case (Inl e)
  then show ?thesis by (simp add: Is7zFile_def)
next
  case (Inr f)
  then have o: "offset f = 0" using os_Open_resolved by blast
  show ?thesis
  proof (cases "fnode f")
    case (RegFile bs)
    with Inr o show ?thesis
      using padded_eq6 [of bs] by (cases "bs = []") (auto simp: Is7zFile_def file_Read_def)
  next
    case DirNode
    with Inr show ?thesis by (simp add: Is7zFile_def file_Read_def)
  next
    case (Stream bs)
    with Inr o show ?thesis
      using padded_eq6 [of bs] by (cases "bs = []") (auto simp: Is7zFile_def file_Read_def)
  qed
qed

lemma IsTarFile_iff:
  "IsTarFile fs path \<longleftrightarrow>
     (\<exists>f bs. os_Open fs path = Inr f \<and> fnode f = RegFile bs \<and> 263 \<le> length bs
             \<and> take 5 (drop 257 bs) = [0x75, 0x73, 0x74, 0x61, 0x72])"
proof (cases "os_Open fs path")
  case (Inl e)
  then show ?thesis by (simp add: IsTarFile_def)
next
  case (Inr f)
  show ?thesis
  proof (cases "fnode f")
    case (RegFile bs)
    have "take 5 (take 6 (drop 257 bs)) = take 5 (drop 257 bs)" by simp
    with Inr RegFile show ?thesis
      by (auto simp: IsTarFile_def file_Seek_def file_Read_def HasPrefix_ustar Let_def)
  next
    case DirNode
    with Inr show ?thesis by (simp add: IsTarFile_def file_Seek_def file_Read_def)
  next
    case (Stream bs)
    with Inr show ?thesis by (simp add: IsTarFile_def file_Seek_def)
  qed
qed

text \<open>The classifiers on a file that opens as a regular file.\<close>

lemma classify_opened:
  assumes "os_Open fs path = Inr \<lparr>fnode = RegFile bs, offset = 0\<rparr>"
  shows "IsZipFile fs path \<longleftrightarrow> take 4 bs = [0x50, 0x4B, 0x03, 0x04]"
    and "Is7zFile fs path \<longleftrightarrow> take 6 bs = [0x37, 0x7A, 0xBC, 0xAF, 0x27, 0x1C]"
    and "IsTarFile fs path \<longleftrightarrow>
           263 \<le> length bs \<and> take 5 (drop 257 bs) = [0x75, 0x73, 0x74, 0x61, 0x72]"
  using assms by (auto simp: IsZipFile_iff Is7zFile_iff IsTarFile_iff)

text \<open>
  C6. Each classifier returns true exactly when the file opens and its bytes carry the
  signature: the first four bytes for ZIP, the first six for 7-Zip, the five bytes
  \<open>ustar\<close> at offset 257 of a regular file of at least 263 bytes for TAR. Each returns
  false, and no error, when the file cannot be opened, when \<open>Read\<close> fails, when \<open>Seek\<close>
  fails, and when the file is shorter than the signature it reads.
\<close>

theorem classifiers_false_on_failure:
  "(IsZipFile fs path \<longleftrightarrow>
      (\<exists>f bs. os_Open fs path = Inr f \<and> (fnode f = RegFile bs \<or> fnode f = Stream bs)
              \<and> take 4 bs = [0x50, 0x4B, 0x03, 0x04]))
   \<and> (Is7zFile fs path \<longleftrightarrow>
      (\<exists>f bs. os_Open fs path = Inr f \<and> (fnode f = RegFile bs \<or> fnode f = Stream bs)
              \<and> take 6 bs = [0x37, 0x7A, 0xBC, 0xAF, 0x27, 0x1C]))
   \<and> (IsTarFile fs path \<longleftrightarrow>
      (\<exists>f bs. os_Open fs path = Inr f \<and> fnode f = RegFile bs \<and> 263 \<le> length bs
              \<and> take 5 (drop 257 bs) = [0x75, 0x73, 0x74, 0x61, 0x72]))
   \<and> (os_Open fs path = Inl err \<longrightarrow>
        \<not> IsZipFile fs path \<and> \<not> Is7zFile fs path \<and> \<not> IsTarFile fs path)
   \<and> (os_Open fs path = Inr f \<and> file_Read f 4 = Inl err \<longrightarrow> \<not> IsZipFile fs path)
   \<and> (os_Open fs path = Inr f \<and> file_Read f 6 = Inl err \<longrightarrow> \<not> Is7zFile fs path)
   \<and> (os_Open fs path = Inr f \<and> file_Seek f 257 = Inl err \<longrightarrow> \<not> IsTarFile fs path)
   \<and> (os_Open fs path = Inr f \<and> file_Seek f 257 = Inr f1 \<and> file_Read f1 6 = Inl err \<longrightarrow>
        \<not> IsTarFile fs path)
   \<and> (os_Open fs path = Inr f \<and> fnode f = RegFile bs \<and> length bs < 4 \<longrightarrow>
        \<not> IsZipFile fs path)
   \<and> (os_Open fs path = Inr f \<and> fnode f = RegFile bs \<and> length bs < 6 \<longrightarrow>
        \<not> Is7zFile fs path)
   \<and> (os_Open fs path = Inr f \<and> fnode f = RegFile bs \<and> length bs < 263 \<longrightarrow>
        \<not> IsTarFile fs path)"
proof (intro conjI impI, goal_cases)
  case 1
  show ?case by (rule IsZipFile_iff)
next
  case 2
  show ?case by (rule Is7zFile_iff)
next
  case 3
  show ?case by (rule IsTarFile_iff)
next
  case 4
  then show ?case by (simp add: IsZipFile_def)
next
  case 5
  then show ?case by (simp add: Is7zFile_def)
next
  case 6
  then show ?case by (simp add: IsTarFile_def)
next
  case 7
  then show ?case by (simp add: IsZipFile_def)
next
  case 8
  then show ?case by (simp add: Is7zFile_def)
next
  case 9
  then show ?case by (simp add: IsTarFile_def)
next
  case 10
  then show ?case by (simp add: IsTarFile_def)
next
  case 11
  then have "length (take 4 bs) \<noteq> length [0x50, 0x4B, 0x03, 0x04 :: byte]" by simp
  then have "take 4 bs \<noteq> [0x50, 0x4B, 0x03, 0x04]" by metis
  with 11 show ?case by (auto simp: IsZipFile_iff)
next
  case 12
  then have "length (take 6 bs) \<noteq> length [0x37, 0x7A, 0xBC, 0xAF, 0x27, 0x1C :: byte]" by simp
  then have "take 6 bs \<noteq> [0x37, 0x7A, 0xBC, 0xAF, 0x27, 0x1C]" by metis
  with 12 show ?case by (auto simp: Is7zFile_iff)
next
  case 13
  then show ?case by (auto simp: IsTarFile_iff)
qed

theorem classifiers_false_on_failure_witness:
  "IsZipFile sample_fs ''/in/pkg.zip''
   \<and> \<not> IsZipFile sample_fs ''/in/pkg.zip/''
   \<and> \<not> IsZipFile sample_fs ''/in/none'' \<and> \<not> Is7zFile sample_fs ''/in/none''
   \<and> \<not> IsTarFile sample_fs ''/in/none''
   \<and> \<not> IsZipFile sample_fs ''/in'' \<and> \<not> Is7zFile sample_fs ''/in'' \<and> \<not> IsTarFile sample_fs ''/in''
   \<and> \<not> IsTarFile sample_fs ''/in/fifo''
   \<and> \<not> IsZipFile sample_fs ''/in/notes.txt'' \<and> \<not> Is7zFile sample_fs ''/in/notes.txt''
   \<and> \<not> IsTarFile sample_fs ''/in/notes.txt''"
proof -
  have z: "IsZipFile sample_fs ''/in/pkg.zip''"
    using classifiers_false_on_failure [where fs = sample_fs and path = "''/in/pkg.zip''"
        and err = ENOENT and f = "\<lparr>fnode = DirNode, offset = 0\<rparr>"
        and ?f1.0 = "\<lparr>fnode = DirNode, offset = 0\<rparr>" and bs = "[]"]
    by (simp add: sample_open sample_zip_bytes_def)
  have t0: "\<not> IsZipFile sample_fs ''/in/pkg.zip/''"
    using classifiers_false_on_failure [where fs = sample_fs and path = "''/in/pkg.zip/''"
        and err = ENOTDIR] sample_open
    by blast
  have d: "file_Read \<lparr>fnode = DirNode, offset = 0\<rparr> 4 = Inl EISDIR"
    "file_Read \<lparr>fnode = DirNode, offset = 0\<rparr> 6 = Inl EISDIR"
    "file_Seek \<lparr>fnode = DirNode, offset = 0\<rparr> 257 = Inr \<lparr>fnode = DirNode, offset = 257\<rparr>"
    "file_Read \<lparr>fnode = DirNode, offset = 257\<rparr> 6 = Inl EISDIR"
    by (simp_all add: file_Read_def file_Seek_def)
  have s: "file_Seek \<lparr>fnode = Stream sample_zip_bytes, offset = 0\<rparr> 257 = Inl ESPIPE"
    by (simp add: file_Seek_def)
  have n: "fnode \<lparr>fnode = RegFile [0x68, 0x69], offset = 0\<rparr> = RegFile [0x68, 0x69]"
    "length [0x68, 0x69 :: byte] < 4" "length [0x68, 0x69 :: byte] < 6"
    "length [0x68, 0x69 :: byte] < 263"
    by simp_all
  have t1: "\<not> IsZipFile sample_fs ''/in/none'' \<and> \<not> Is7zFile sample_fs ''/in/none''
      \<and> \<not> IsTarFile sample_fs ''/in/none''"
    using classifiers_false_on_failure [where fs = sample_fs and path = "''/in/none''"
        and err = ENOENT] sample_open
    by blast
  have t2: "\<not> IsZipFile sample_fs ''/in'' \<and> \<not> Is7zFile sample_fs ''/in''
      \<and> \<not> IsTarFile sample_fs ''/in''"
    using classifiers_false_on_failure [where fs = sample_fs and path = "''/in''"
        and f = "\<lparr>fnode = DirNode, offset = 0\<rparr>" and err = EISDIR
        and ?f1.0 = "\<lparr>fnode = DirNode, offset = 257\<rparr>"] d sample_open
    by blast
  have t3: "\<not> IsTarFile sample_fs ''/in/fifo''"
    using classifiers_false_on_failure [where fs = sample_fs and path = "''/in/fifo''"
        and f = "\<lparr>fnode = Stream sample_zip_bytes, offset = 0\<rparr>" and err = ESPIPE] s
      sample_open
    by blast
  have t4: "\<not> IsZipFile sample_fs ''/in/notes.txt'' \<and> \<not> Is7zFile sample_fs ''/in/notes.txt''
      \<and> \<not> IsTarFile sample_fs ''/in/notes.txt''"
    using classifiers_false_on_failure [where fs = sample_fs and path = "''/in/notes.txt''"
        and f = "\<lparr>fnode = RegFile [0x68, 0x69], offset = 0\<rparr>" and bs = "[0x68, 0x69]"] n
      sample_open
    by blast
  from z t0 t1 t2 t3 t4 show ?thesis by blast
qed

text \<open>
  C3, as stated, fails: the TAR test reads offset 257 and the ZIP test reads offset 0, so
  a TAR header whose member name begins with the bytes of the ZIP signature satisfies
  both \<open>IsZipFile\<close> and \<open>IsTarFile\<close>.
\<close>

lemma polyglot_facts:
  "take 4 polyglot_bytes = [0x50, 0x4B, 0x03, 0x04]"
  "263 \<le> length polyglot_bytes"
  "take 5 (drop 257 polyglot_bytes) = [0x75, 0x73, 0x74, 0x61, 0x72]"
  by (simp_all add: polyglot_bytes_def)

theorem classifiers_exclusive_counterexample:
  "IsZipFile sample_fs ''/in/polyglot'' \<and> IsTarFile sample_fs ''/in/polyglot''"
  by (simp add: classify_opened [OF sample_open(9)] polyglot_facts)

text \<open>
  C3, amended. \<open>IsZipFile\<close> and \<open>Is7zFile\<close> both read the file from offset 0 and their
  signatures differ in the first byte, so no file satisfies both. \<open>IsTarFile\<close> is
  independent of the two.
\<close>

theorem zip_7z_exclusive:
  "IsZipFile fs path \<longrightarrow> \<not> Is7zFile fs path"
proof
  assume "IsZipFile fs path"
  then obtain f bs where o: "os_Open fs path = Inr f"
    and n: "fnode f = RegFile bs \<or> fnode f = Stream bs"
    and z: "take 4 bs = [0x50, 0x4B, 0x03, 0x04]"
    unfolding IsZipFile_iff by blast
  from z have "bs \<noteq> []" by auto
  then obtain b bs' where bs: "bs = b # bs'" by (cases bs) auto
  with z have b: "b = 0x50" by simp
  show "\<not> Is7zFile fs path"
  proof
    assume "Is7zFile fs path"
    then obtain g cs where o': "os_Open fs path = Inr g"
      and m: "fnode g = RegFile cs \<or> fnode g = Stream cs"
      and s: "take 6 cs = [0x37, 0x7A, 0xBC, 0xAF, 0x27, 0x1C]"
      unfolding Is7zFile_iff by blast
    from o o' have "g = f" by simp
    with n m have "cs = bs" by auto
    with s bs b show False by simp
  qed
qed

theorem zip_7z_exclusive_witness:
  "IsZipFile sample_fs ''/in/pkg.zip'' \<and> \<not> Is7zFile sample_fs ''/in/pkg.zip''"
proof -
  have z: "IsZipFile sample_fs ''/in/pkg.zip''"
    by (simp add: classify_opened [OF sample_open(1)] sample_zip_bytes_def)
  with zip_7z_exclusive [of sample_fs "''/in/pkg.zip''"] show ?thesis by blast
qed

section \<open>The dispatcher\<close>

lemma zip_ustar_facts:
  "take 4 zip_ustar_bytes = [0x50, 0x4B, 0x03, 0x04]" "length zip_ustar_bytes = 532"
  "take 6 zip_ustar_bytes \<noteq> [0x37, 0x7A, 0xBC, 0xAF, 0x27, 0x1C]"
  "take 5 (drop 257 zip_ustar_bytes) = [0x75, 0x73, 0x74, 0x61, 0x72]"
  by (simp_all add: zip_ustar_bytes_def poly_content_def)

lemma poly_content_length: "length poly_content = 420"
  by (simp add: poly_content_def)

lemma zip_ustar_other:
  "length bs \<noteq> 532 \<Longrightarrow> (zip_ustar_bytes = bs) = False"
  "length bs \<noteq> 532 \<Longrightarrow> (bs = zip_ustar_bytes) = False"
  using zip_ustar_facts(2) by auto

lemma sample_classify:
  "\<not> Is7zFile sample_fs ''/in/notes.txt''" "\<not> IsTarFile sample_fs ''/in/notes.txt''"
  "\<not> IsZipFile sample_fs ''/in/notes.txt''"
  "\<not> Is7zFile sample_fs ''/in/report.docx''" "\<not> IsTarFile sample_fs ''/in/report.docx''"
  "IsZipFile sample_fs ''/in/report.docx''"
  "\<not> Is7zFile sample_fs ''/in/pkg.zip''" "\<not> IsTarFile sample_fs ''/in/pkg.zip''"
  "IsZipFile sample_fs ''/in/pkg.zip''"
  "Is7zFile sample_fs ''/in/pkg.7z''"
  "\<not> Is7zFile sample_fs ''/in/pkg.tar''" "IsTarFile sample_fs ''/in/pkg.tar''"
  "\<not> Is7zFile sample_fs ''/in/polyglot''" "IsTarFile sample_fs ''/in/polyglot''"
  "\<not> Is7zFile sample_fs ''/in/pkg.tar.gz''" "\<not> IsTarFile sample_fs ''/in/pkg.tar.gz''"
  "\<not> IsZipFile sample_fs ''/in/pkg.tar.gz''"
  "\<not> Is7zFile sample_fs ''/in/poly.docx''" "IsTarFile sample_fs ''/in/poly.docx''"
  "IsZipFile sample_fs ''/in/poly.docx''"
  "\<not> Is7zFile sample_fs ''/in/.zip''" "\<not> IsTarFile sample_fs ''/in/.zip''"
  "IsZipFile sample_fs ''/in/.zip''"
  by (simp_all add: classify_opened [OF sample_open(1)] classify_opened [OF sample_open(3)]
      classify_opened [OF sample_open(4)] classify_opened [OF sample_open(5)]
      classify_opened [OF sample_open(6)] classify_opened [OF sample_open(7)]
      classify_opened [OF sample_open(9)] classify_opened [OF sample_open(10)]
      classify_opened [OF sample_open(11)] zip_ustar_facts
      sample_zip_bytes_def sample_7z_bytes_def sample_tar_bytes_def polyglot_bytes_def
      targz_bytes_def)

lemma ExtractArchive_7z:
  "Is7zFile fs src \<Longrightarrow>
     ExtractArchive c ctx fs src dest =
       (case Extract7z c ctx fs src dest of
          (Inl err, fs') \<Rightarrow> (Inl (Wrapped ''error extracting 7zip: %w'' [] err), fs')
        | (Inr aipPath, fs') \<Rightarrow>
            (if aipPath = [] then Inl (ExtractFailed src) else Inr aipPath, fs'))"
  by (auto simp: ExtractArchive_def split: prod.splits sum.splits)

lemma ExtractArchive_tar:
  "\<not> Is7zFile fs src \<Longrightarrow> IsTarFile fs src \<Longrightarrow>
     ExtractArchive c ctx fs src dest =
       (case ExtractTar c ctx fs src dest of
          (Inl err, fs') \<Rightarrow> (Inl (Wrapped ''error extracting tar: %w'' [] err), fs')
        | (Inr aipPath, fs') \<Rightarrow>
            (if aipPath = [] then Inl (ExtractFailed src) else Inr aipPath, fs'))"
  by (auto simp: ExtractArchive_def split: prod.splits sum.splits)

lemma ExtractArchive_zip:
  "\<not> Is7zFile fs src \<Longrightarrow> \<not> IsTarFile fs src \<Longrightarrow> IsZipFile fs src \<Longrightarrow>
     ExtractArchive c ctx fs src dest =
       (case ExtractZip c ctx fs src dest of
          (Inl err, fs') \<Rightarrow> (Inl (Wrapped ''error extracting zip: %w'' [] err), fs')
        | (Inr aipPath, fs') \<Rightarrow>
            (if aipPath = [] then Inl (ExtractFailed src) else Inr aipPath, fs'))"
  by (auto simp: ExtractArchive_def split: prod.splits sum.splits)

lemma ExtractArchive_unsupported:
  "\<not> Is7zFile fs src \<Longrightarrow> \<not> IsTarFile fs src \<Longrightarrow> \<not> IsZipFile fs src \<Longrightarrow>
     ExtractArchive c ctx fs src dest = (Inl (UnsupportedFormat src), fs)"
  by (simp add: ExtractArchive_def)

text \<open>
  C4. \<open>ExtractArchive\<close> tests for 7-Zip, then TAR, then ZIP, and hands the archive to the
  adapter of the first test that holds: its result is that adapter's, with the error
  wrapped under the name of the format. When no test holds it returns the
  unsupported-format error with the source path, and the file system is unchanged.
\<close>

theorem ExtractArchive_dispatch_order:
  "(Is7zFile fs src \<longrightarrow>
      ExtractArchive c ctx fs src dest =
        (case Extract7z c ctx fs src dest of
           (Inl err, fs') \<Rightarrow> (Inl (Wrapped ''error extracting 7zip: %w'' [] err), fs')
         | (Inr aipPath, fs') \<Rightarrow>
             (if aipPath = [] then Inl (ExtractFailed src) else Inr aipPath, fs')))
   \<and> (\<not> Is7zFile fs src \<and> IsTarFile fs src \<longrightarrow>
      ExtractArchive c ctx fs src dest =
        (case ExtractTar c ctx fs src dest of
           (Inl err, fs') \<Rightarrow> (Inl (Wrapped ''error extracting tar: %w'' [] err), fs')
         | (Inr aipPath, fs') \<Rightarrow>
             (if aipPath = [] then Inl (ExtractFailed src) else Inr aipPath, fs')))
   \<and> (\<not> Is7zFile fs src \<and> \<not> IsTarFile fs src \<and> IsZipFile fs src \<longrightarrow>
      ExtractArchive c ctx fs src dest =
        (case ExtractZip c ctx fs src dest of
           (Inl err, fs') \<Rightarrow> (Inl (Wrapped ''error extracting zip: %w'' [] err), fs')
         | (Inr aipPath, fs') \<Rightarrow>
             (if aipPath = [] then Inl (ExtractFailed src) else Inr aipPath, fs')))
   \<and> (\<not> Is7zFile fs src \<and> \<not> IsTarFile fs src \<and> \<not> IsZipFile fs src \<longrightarrow>
      ExtractArchive c ctx fs src dest = (Inl (UnsupportedFormat src), fs))"
  using ExtractArchive_7z [of fs src c ctx dest] ExtractArchive_tar [of fs src c ctx dest]
    ExtractArchive_zip [of fs src c ctx dest] ExtractArchive_unsupported [of fs src c ctx dest]
  by blast

theorem ExtractArchive_dispatch_order_witness:
  "ExtractArchive sample_codec live sample_fs ''/in/notes.txt'' ''/out''
     = (Inl (UnsupportedFormat ''/in/notes.txt''), sample_fs)
   \<and> ExtractArchive sample_codec live sample_fs ''/in/polyglot'' ''/out''
     = (case ExtractTar sample_codec live sample_fs ''/in/polyglot'' ''/out'' of
          (Inl err, fs') \<Rightarrow> (Inl (Wrapped ''error extracting tar: %w'' [] err), fs')
        | (Inr aipPath, fs') \<Rightarrow>
            (if aipPath = [] then Inl (ExtractFailed ''/in/polyglot'') else Inr aipPath, fs'))
   \<and> ExtractArchive sample_codec live sample_fs ''/in/pkg.7z'' ''/out''
     = (case Extract7z sample_codec live sample_fs ''/in/pkg.7z'' ''/out'' of
          (Inl err, fs') \<Rightarrow> (Inl (Wrapped ''error extracting 7zip: %w'' [] err), fs')
        | (Inr aipPath, fs') \<Rightarrow>
            (if aipPath = [] then Inl (ExtractFailed ''/in/pkg.7z'') else Inr aipPath, fs'))
   \<and> ExtractArchive sample_codec live sample_fs ''/in/pkg.zip'' ''/out''
     = (case ExtractZip sample_codec live sample_fs ''/in/pkg.zip'' ''/out'' of
          (Inl err, fs') \<Rightarrow> (Inl (Wrapped ''error extracting zip: %w'' [] err), fs')
        | (Inr aipPath, fs') \<Rightarrow>
            (if aipPath = [] then Inl (ExtractFailed ''/in/pkg.zip'') else Inr aipPath, fs'))"
proof -
  have a: "ExtractArchive sample_codec live sample_fs ''/in/notes.txt'' ''/out''
     = (Inl (UnsupportedFormat ''/in/notes.txt''), sample_fs)"
    using ExtractArchive_dispatch_order [of sample_fs "''/in/notes.txt''" sample_codec live "''/out''"]
    by (simp add: sample_classify)
  have b: "ExtractArchive sample_codec live sample_fs ''/in/polyglot'' ''/out''
     = (case ExtractTar sample_codec live sample_fs ''/in/polyglot'' ''/out'' of
          (Inl err, fs') \<Rightarrow> (Inl (Wrapped ''error extracting tar: %w'' [] err), fs')
        | (Inr aipPath, fs') \<Rightarrow>
            (if aipPath = [] then Inl (ExtractFailed ''/in/polyglot'') else Inr aipPath, fs'))"
    using ExtractArchive_dispatch_order [of sample_fs "''/in/polyglot''" sample_codec live "''/out''"]
    by (simp add: sample_classify)
  have c: "ExtractArchive sample_codec live sample_fs ''/in/pkg.7z'' ''/out''
     = (case Extract7z sample_codec live sample_fs ''/in/pkg.7z'' ''/out'' of
          (Inl err, fs') \<Rightarrow> (Inl (Wrapped ''error extracting 7zip: %w'' [] err), fs')
        | (Inr aipPath, fs') \<Rightarrow>
            (if aipPath = [] then Inl (ExtractFailed ''/in/pkg.7z'') else Inr aipPath, fs'))"
    using ExtractArchive_dispatch_order [of sample_fs "''/in/pkg.7z''" sample_codec live "''/out''"]
    by (simp add: sample_classify)
  have d: "ExtractArchive sample_codec live sample_fs ''/in/pkg.zip'' ''/out''
     = (case ExtractZip sample_codec live sample_fs ''/in/pkg.zip'' ''/out'' of
          (Inl err, fs') \<Rightarrow> (Inl (Wrapped ''error extracting zip: %w'' [] err), fs')
        | (Inr aipPath, fs') \<Rightarrow>
            (if aipPath = [] then Inl (ExtractFailed ''/in/pkg.zip'') else Inr aipPath, fs'))"
    using ExtractArchive_dispatch_order [of sample_fs "''/in/pkg.zip''" sample_codec live "''/out''"]
    by (simp add: sample_classify)
  from a b c d show ?thesis by (intro conjI)
qed

subsection \<open>Evaluation on the sample inputs\<close>

lemma sample_paths:
  "safeJoin ''/out/'' ''pkg/'' = Inr ''/out/pkg''"
  "safeJoin ''/out/'' ''pkg/a.txt'' = Inr ''/out/pkg/a.txt''"
  "safeJoin ''/out/'' ''pkg/b.txt'' = Inr ''/out/pkg/b.txt''"
  "Clean ''/out/pkg'' = ''/out/pkg''" "Dir ''/out/pkg'' = ''/out''"
  "Clean ''/out/pkg/a.txt'' = ''/out/pkg/a.txt''" "Dir ''/out/pkg/a.txt'' = ''/out/pkg''"
  "Clean ''/out/pkg/b.txt'' = ''/out/pkg/b.txt''" "Dir ''/out/pkg/b.txt'' = ''/out/pkg''"
  "Join [''/out/'', ''pkg''] = ''/out/pkg''"
  "Join [''/out/'', ''report''] = ''/out/report''"
  "Join [''/out/'', ''pkg.tar''] = ''/out/pkg.tar''"
  "Base (TrimSuffix ''/in/pkg.zip'' (Ext ''/in/pkg.zip'')) = ''pkg''"
  "Base (TrimSuffix ''/in/pkg.7z'' (Ext ''/in/pkg.7z'')) = ''pkg''"
  "Base (TrimSuffix ''/in/pkg.tar'' (Ext ''/in/pkg.tar'')) = ''pkg''"
  "Base (TrimSuffix ''/in/report.docx'' (Ext ''/in/report.docx'')) = ''report''"
  "Base (TrimSuffix ''/in/pkg.tar.gz'' (Ext ''/in/pkg.tar.gz'')) = ''pkg.tar''"
  "Join [''/out/'', ''poly''] = ''/out/poly''"
  "safeJoin ''/out/'' ''doc.xml'' = Inr ''/out/doc.xml''"
  "Dir ''/out/doc.xml'' = ''/out''"
  "Join [''/out/'', ''in''] = ''/out/in''"
  "Base (TrimSuffix ''/in/poly.docx'' (Ext ''/in/poly.docx'')) = ''poly''"
  "Base (TrimSuffix ''/in/.zip'' (Ext ''/in/.zip'')) = ''in''"
  by code_simp+

lemmas sample_unfold =
  ExtractZip_def Extract7z_def ExtractTar_def ExtractZip_entry_def Extract7z_entry_def
  ExtractTar_entry_def ExtractTar_reader_def zip_OpenReader_def sevenzip_OpenReader_def
  os_Open_def os_Stat_def os_Mkdir_def os_OpenFile_def os_Create_def os_IsNotExist_def
  resolve_def resolve_parent_def start_dir_def
  os_IsExist_def CreateDir_def Mkdir_if_missing_def io_Copy_def io_LimitReader_def
  file_Write_def file_stream_def sanitizeFileMode_def TypeReg_def TypeDir_def
  maxExtractFileSize_value Separator_def live_def

lemmas sample_data =
  sample_fs_def sample_codec_def sample_files_def sample_headers_def targz_headers_def
  sample_zip_bytes_def sample_7z_bytes_def sample_tar_bytes_def evil_zip_bytes_def
  dot_tar_bytes_def targz_inner_bytes_def targz_bytes_def zip_ustar_other

lemma sample_docx_extracted:
  "fst (ExtractZip sample_codec live sample_fs ''/in/report.docx'' ''/out'') = Inr ''/out/report''"
  "snd (ExtractZip sample_codec live sample_fs ''/in/report.docx'' ''/out'') ''/out/pkg/a.txt''
     = Some (RegFile [0x68, 0x69])"
  by (simp_all add: sample_unfold sample_data Clean_sample split_sample Join_sample sample_paths
      del: Join.simps split_path.simps)

lemma sample_docx_policy: "\<not> IsActualArchive ''/in/report.docx''"
  by code_simp

lemma poly_docx_policy: "\<not> IsActualArchive ''/in/poly.docx''"
  by code_simp

lemma poly_docx_as_zip:
  "fst (ExtractZip sample_codec live sample_fs ''/in/poly.docx'' ''/out'') = Inr ''/out/poly''"
  "snd (ExtractZip sample_codec live sample_fs ''/in/poly.docx'' ''/out'')
     ''/out/doc.xml'' = Some (RegFile poly_content)"
  by (simp_all add: sample_unfold sample_data poly_files_def poly_content_length Clean_sample
      split_sample Join_sample sample_paths del: Join.simps split_path.simps)

lemma poly_docx_as_tar:
  "ExtractTar sample_codec live sample_fs ''/in/poly.docx'' ''/out''
     = (Inl (CodecError ''archive/tar: invalid tar header''), sample_fs)"
proof -
  have s: "HasSuffix ''/in/poly.docx'' ''.gz'' = False" "HasSuffix ''/in/poly.docx'' ''.tgz'' = False"
    by code_simp+
  have m: "Mkdir_if_missing sample_fs ''/out'' = Inr sample_fs"
    by (simp add: Mkdir_if_missing_def os_Stat_def resolve_def start_dir_def os_IsNotExist_def
        split_sample Join_sample sample_nodes Separator_def del: Join.simps split_path.simps)
  show ?thesis
    by (simp add: ExtractTar_def ExtractTar_reader_def sample_open s m sample_codec_def
        file_stream_def live_def zip_ustar_other sample_tar_bytes_def dot_tar_bytes_def
        targz_inner_bytes_def)
qed

text \<open>
  C9, as stated, fails: a file with an Office extension that starts with the ZIP
  signature and holds \<open>ustar\<close> at offset 257 is handed to the TAR adapter, not to the ZIP
  adapter. \<open>/in/poly.docx\<close> is such a file, a ZIP archive whose member \<open>doc.xml\<close> is
  stored uncompressed: \<open>IsActualArchive\<close> rejects its name,
  \<open>IsZipFile\<close> holds of it, \<open>ExtractZip\<close> called on it extracts the member, and
  \<open>ExtractArchive\<close> returns the error of \<open>ExtractTar\<close> and extracts nothing.
\<close>

theorem ExtractArchive_office_counterexample:
  "\<not> IsActualArchive ''/in/poly.docx''
   \<and> IsZipFile sample_fs ''/in/poly.docx''
   \<and> fst (ExtractZip sample_codec live sample_fs ''/in/poly.docx'' ''/out'') = Inr ''/out/poly''
   \<and> snd (ExtractZip sample_codec live sample_fs ''/in/poly.docx'' ''/out'')
       ''/out/doc.xml'' = Some (RegFile poly_content)
   \<and> ExtractArchive sample_codec live sample_fs ''/in/poly.docx'' ''/out''
       = (Inl (Wrapped ''error extracting tar: %w'' []
            (CodecError ''archive/tar: invalid tar header'')), sample_fs)"
proof -
  have "ExtractArchive sample_codec live sample_fs ''/in/poly.docx'' ''/out''
       = (Inl (Wrapped ''error extracting tar: %w'' []
            (CodecError ''archive/tar: invalid tar header'')), sample_fs)"
    by (simp add: ExtractArchive_tar [OF sample_classify(18) sample_classify(19)]
        poly_docx_as_tar)
  with poly_docx_policy sample_classify(20) poly_docx_as_zip show ?thesis by blast
qed

text \<open>
  C9, amended. \<open>ExtractArchive\<close> does not consult \<open>IsActualArchive\<close>: a file that
  \<open>IsActualArchive\<close> rejects by its extension, and that carries the ZIP signature and
  neither the 7-Zip signature nor \<open>ustar\<close> at offset 257, is handed to \<open>ExtractZip\<close> like
  any other ZIP file.
\<close>

theorem ExtractArchive_ignores_IsActualArchive:
  "\<not> IsActualArchive src \<and> IsZipFile fs src \<and> \<not> Is7zFile fs src \<and> \<not> IsTarFile fs src \<longrightarrow>
     ExtractArchive c ctx fs src dest =
       (case ExtractZip c ctx fs src dest of
          (Inl err, fs') \<Rightarrow> (Inl (Wrapped ''error extracting zip: %w'' [] err), fs')
        | (Inr aipPath, fs') \<Rightarrow>
            (if aipPath = [] then Inl (ExtractFailed src) else Inr aipPath, fs'))"
  using ExtractArchive_zip [of fs src c ctx dest] by blast

theorem ExtractArchive_ignores_IsActualArchive_witness:
  "\<not> IsActualArchive ''/in/report.docx''
   \<and> fst (ExtractArchive sample_codec live sample_fs ''/in/report.docx'' ''/out'')
       = Inr ''/out/report''
   \<and> snd (ExtractArchive sample_codec live sample_fs ''/in/report.docx'' ''/out'')
       ''/out/pkg/a.txt'' = Some (RegFile [0x68, 0x69])"
proof -
  obtain r fs' where z: "ExtractZip sample_codec live sample_fs ''/in/report.docx'' ''/out'' = (r, fs')"
    by (cases "ExtractZip sample_codec live sample_fs ''/in/report.docx'' ''/out''")
  from z sample_docx_extracted have r: "r = Inr ''/out/report''"
    and f: "fs' ''/out/pkg/a.txt'' = Some (RegFile [0x68, 0x69])"
    by simp_all
  have "ExtractArchive sample_codec live sample_fs ''/in/report.docx'' ''/out''
      = (Inr ''/out/report'', fs')"
    using ExtractArchive_ignores_IsActualArchive
        [of "''/in/report.docx''" sample_fs sample_codec live "''/out''"]
      sample_docx_policy sample_classify(4,5,6) z r
    by simp
  with f sample_docx_policy show ?thesis by simp
qed

text \<open>
  C2 fails on a gzip-compressed TAR archive: the three tests read the bytes of the file
  as they are stored, and the compressed bytes carry none of the three signatures. On
  the 102 bytes of a well-formed \<open>.tar.gz\<close> archive \<open>ExtractArchive\<close> returns the
  unsupported-format error, whatever the codecs can decode, although \<open>ExtractTar\<close>
  called on the same file extracts it.
\<close>

theorem ExtractArchive_targz_unsupported:
  "ExtractArchive c ctx sample_fs ''/in/pkg.tar.gz'' ''/out''
     = (Inl (UnsupportedFormat ''/in/pkg.tar.gz''), sample_fs)"
  by (rule ExtractArchive_unsupported) (simp_all add: sample_classify)

lemma ExtractTar_targz_extracts:
  "fst (ExtractTar sample_codec live sample_fs ''/in/pkg.tar.gz'' ''/out'') = Inr ''/out/pkg.tar''"
  "snd (ExtractTar sample_codec live sample_fs ''/in/pkg.tar.gz'' ''/out'') ''/out/pkg/a.txt''
     = Some (RegFile [0x68, 0x69])"
  by (simp_all add: sample_unfold sample_data Clean_sample split_sample Join_sample sample_paths
      HasSuffix_def del: Join.simps split_path.simps)

text \<open>The same holds for every file that starts with the two bytes of the gzip signature
  and does not happen to hold \<open>ustar\<close> at offset 257 of its compressed form.\<close>

lemma ExtractArchive_gzip_unsupported:
  assumes "os_Open fs src = Inr \<lparr>fnode = RegFile bs, offset = 0\<rparr>"
    and "take 2 bs = [0x1F, 0x8B]"
    and "\<not> (263 \<le> length bs \<and> take 5 (drop 257 bs) = [0x75, 0x73, 0x74, 0x61, 0x72])"
  shows "ExtractArchive c ctx fs src dest = (Inl (UnsupportedFormat src), fs)"
proof (rule ExtractArchive_unsupported)
  from assms(2) obtain b bs' where bs: "bs = b # bs'" and b: "b = 0x1F"
    by (cases bs) auto
  show "\<not> Is7zFile fs src" using assms(1) bs b by (auto simp: Is7zFile_iff)
  show "\<not> IsTarFile fs src" using assms(1,3) by (auto simp: IsTarFile_iff)
  show "\<not> IsZipFile fs src" using assms(1) bs b by (auto simp: IsZipFile_iff)
qed


section \<open>Cancellation\<close>

lemma range_files_cancel:
  assumes "\<forall>j<k. ctx (i + j) = None" and "ctx (i + k) = Some e" and "k < length files"
    and "range_files body live i fs (take k files) = (None, fs_k)"
  shows "range_files body ctx i fs files = (Some e, fs_k)"
  using assms
proof (induction k arbitrary: i fs files)
  case 0
  then obtain f rest where "files = f # rest" by (cases files) auto
  with 0 show ?case by simp
next
  case (Suc k)
  then obtain f rest where fr: "files = f # rest" by (cases files) auto
  from Suc.prems(1) have c0: "ctx i = None" by (metis add.right_neutral zero_less_Suc)
  obtain r fs1 where b: "body fs f = (r, fs1)" by (cases "body fs f")
  from Suc.prems(4) fr b have r: "r = None"
    and rest: "range_files body live (Suc i) fs1 (take k rest) = (None, fs_k)"
    by (cases r; simp add: live_def)+
  have "\<forall>j<k. ctx (Suc i + j) = None" using Suc.prems(1) by (metis Suc_less_eq add_Suc_shift)
  moreover have "ctx (Suc i + k) = Some e" using Suc.prems(2) by simp
  moreover have "k < length rest" using Suc.prems(3) fr by simp
  ultimately have "range_files body ctx (Suc i) fs1 rest = (Some e, fs_k)"
    using Suc.IH rest by blast
  with fr c0 b r show ?case by simp
qed

lemma ExtractTar_loop_cancel:
  assumes "\<forall>j<k. ctx (i + j) = None" and "ctx (i + k) = Some e" and "k \<le> length headers"
    and "ExtractTar_loop live i cd fs (take k headers) None = (None, fs_k)"
  shows "ExtractTar_loop ctx i cd fs headers eof = (Some e, fs_k)"
  using assms
proof (induction k arbitrary: i fs headers)
  case 0
  then show ?case by (cases headers) (simp_all add: live_def)
next
  case (Suc k)
  then obtain h rest where hr: "headers = h # rest" by (cases headers) auto
  from Suc.prems(1) have c0: "ctx i = None" by (metis add.right_neutral zero_less_Suc)
  obtain r fs1 where b: "ExtractTar_entry cd fs h = (r, fs1)" by (cases "ExtractTar_entry cd fs h")
  from Suc.prems(4) hr b have r: "r = None"
    and rest: "ExtractTar_loop live (Suc i) cd fs1 (take k rest) None = (None, fs_k)"
    by (cases r; simp add: live_def)+
  have "\<forall>j<k. ctx (Suc i + j) = None" using Suc.prems(1) by (metis Suc_less_eq add_Suc_shift)
  moreover have "ctx (Suc i + k) = Some e" using Suc.prems(2) by simp
  moreover have "k \<le> length rest" using Suc.prems(3) hr by simp
  ultimately have "ExtractTar_loop ctx (Suc i) cd fs1 rest eof = (Some e, fs_k)"
    using Suc.IH rest by blast
  with hr c0 b r show ?case by simp
qed

text \<open>
  C7. Each adapter polls the cancellation signal before each entry. When the signal is
  live at the first k polls and set at the next one, the adapter returns the error of
  the context, and the file system it leaves is the one that the first k entries,
  extracted without cancellation, produce: the entries from the k-th on are not
  written and nothing written before is removed. In \<open>ExtractTar\<close> the poll also
  precedes the read that finds the end of the archive.
\<close>

theorem cancellation_stops_extraction:
  "(\<forall>j<k. ctx j = None) \<and> ctx k = Some e \<longrightarrow>
     (zip_OpenReader c fs src = Inr files \<and> CreateDir fs dest = Inr fs1 \<and> k < length files
      \<and> range_files (ExtractZip_entry (Clean dest @ [Separator])) live 0 fs1 (take k files)
          = (None, fs_k)
      \<longrightarrow> ExtractZip c ctx fs src dest = (Inl e, fs_k))
   \<and> (sevenzip_OpenReader c fs src = Inr files \<and> Mkdir_if_missing fs dest = Inr fs1
      \<and> k < length files
      \<and> range_files (Extract7z_entry (Clean dest @ [Separator])) live 0 fs1 (take k files)
          = (None, fs_k)
      \<longrightarrow> Extract7z c ctx fs src dest = (Inl e, fs_k))
   \<and> (os_Open fs src = Inr f \<and> ExtractTar_reader c src f = Inr tarReader
      \<and> Mkdir_if_missing fs dest = Inr fs1 \<and> k \<le> length (fst tarReader)
      \<and> ExtractTar_loop live 0 (Clean dest @ [Separator]) fs1 (take k (fst tarReader)) None
          = (None, fs_k)
      \<longrightarrow> ExtractTar c ctx fs src dest = (Inl e, fs_k))"
proof (intro impI conjI, goal_cases)
  case 1
  then have "range_files (ExtractZip_entry (Clean dest @ [Separator])) ctx 0 fs1 files
      = (Some e, fs_k)"
    using range_files_cancel [of k ctx 0 e files "ExtractZip_entry (Clean dest @ [Separator])"
        fs1 fs_k]
    by simp
  with 1 show ?case by (simp add: ExtractZip_def)
next
  case 2
  then have "range_files (Extract7z_entry (Clean dest @ [Separator])) ctx 0 fs1 files
      = (Some e, fs_k)"
    using range_files_cancel [of k ctx 0 e files "Extract7z_entry (Clean dest @ [Separator])"
        fs1 fs_k]
    by simp
  with 2 show ?case by (simp add: Extract7z_def)
next
  case 3
  then have "ExtractTar_loop ctx 0 (Clean dest @ [Separator]) fs1 (fst tarReader) (snd tarReader)
      = (Some e, fs_k)"
    using ExtractTar_loop_cancel [of k ctx 0 e "fst tarReader" "Clean dest @ [Separator]"
        fs1 fs_k "snd tarReader"]
    by simp
  with 3 show ?case by (simp add: ExtractTar_def)
qed

lemma cancel_at_polls:
  "\<forall>j<2. cancel_at 2 j = None" "cancel_at 2 2 = Some Canceled"
  "\<forall>j<3. cancel_at 3 j = None" "cancel_at 3 3 = Some Canceled"
  by (simp_all add: cancel_at_def)

lemma sample_zip_opened:
  "zip_OpenReader sample_codec sample_fs ''/in/pkg.zip'' = Inr sample_files"
  "CreateDir sample_fs ''/out'' = Inr sample_fs"
  by (simp_all add: sample_unfold sample_data Clean_sample split_sample Join_sample
      del: Join.simps split_path.simps)

lemma sample_zip_two_entries:
  "fst (range_files (ExtractZip_entry (Clean ''/out'' @ [Separator])) live 0 sample_fs
          (take 2 sample_files)) = None"
  "snd (range_files (ExtractZip_entry (Clean ''/out'' @ [Separator])) live 0 sample_fs
          (take 2 sample_files)) ''/out/pkg/a.txt'' = Some (RegFile [0x68, 0x69])"
  "snd (range_files (ExtractZip_entry (Clean ''/out'' @ [Separator])) live 0 sample_fs
          (take 2 sample_files)) ''/out/pkg/b.txt'' = None"
  by (simp_all add: sample_unfold sample_data Clean_sample split_sample Join_sample sample_paths
      del: Join.simps split_path.simps)

lemma sample_tar_opened:
  "os_Open sample_fs ''/in/pkg.tar'' = Inr \<lparr>fnode = RegFile sample_tar_bytes, offset = 0\<rparr>"
  "ExtractTar_reader sample_codec ''/in/pkg.tar'' \<lparr>fnode = RegFile sample_tar_bytes, offset = 0\<rparr>
     = Inr (sample_headers, None)"
  "Mkdir_if_missing sample_fs ''/out'' = Inr sample_fs"
  by (simp_all add: sample_open ExtractTar_reader_def HasSuffix_def file_stream_def
      sample_codec_def Mkdir_if_missing_def os_Stat_def resolve_def start_dir_def
      os_IsNotExist_def split_sample Join_sample sample_nodes Separator_def
      del: Join.simps split_path.simps)

lemma sample_tar_three_entries:
  "fst (ExtractTar_loop live 0 (Clean ''/out'' @ [Separator]) sample_fs
          (take 3 sample_headers) None) = None"
  "snd (ExtractTar_loop live 0 (Clean ''/out'' @ [Separator]) sample_fs
          (take 3 sample_headers) None) ''/out/pkg/b.txt'' = Some (RegFile [0x62])"
  by (simp_all add: sample_unfold sample_data Clean_sample split_sample Join_sample sample_paths
      del: Join.simps split_path.simps)

theorem cancellation_stops_extraction_witness:
  "fst (ExtractZip sample_codec (cancel_at 2) sample_fs ''/in/pkg.zip'' ''/out'') = Inl Canceled
   \<and> snd (ExtractZip sample_codec (cancel_at 2) sample_fs ''/in/pkg.zip'' ''/out'')
       ''/out/pkg/a.txt'' = Some (RegFile [0x68, 0x69])
   \<and> snd (ExtractZip sample_codec (cancel_at 2) sample_fs ''/in/pkg.zip'' ''/out'')
       ''/out/pkg/b.txt'' = None
   \<and> fst (ExtractTar sample_codec (cancel_at 3) sample_fs ''/in/pkg.tar'' ''/out'') = Inl Canceled
   \<and> snd (ExtractTar sample_codec (cancel_at 3) sample_fs ''/in/pkg.tar'' ''/out'')
       ''/out/pkg/b.txt'' = Some (RegFile [0x62])"
proof -
  obtain r fs_k where rf:
    "range_files (ExtractZip_entry (Clean ''/out'' @ [Separator])) live 0 sample_fs
       (take 2 sample_files) = (r, fs_k)"
    by (cases "range_files (ExtractZip_entry (Clean ''/out'' @ [Separator])) live 0 sample_fs
       (take 2 sample_files)")
  with sample_zip_two_entries have r: "r = None"
    and a: "fs_k ''/out/pkg/a.txt'' = Some (RegFile [0x68, 0x69])"
    and b: "fs_k ''/out/pkg/b.txt'' = None"
    by simp_all
  have len: "2 < length sample_files" by (simp add: sample_files_def)
  have z: "ExtractZip sample_codec (cancel_at 2) sample_fs ''/in/pkg.zip'' ''/out''
      = (Inl Canceled, fs_k)"
    using cancellation_stops_extraction [where k = 2 and ctx = "cancel_at 2" and e = Canceled
        and c = sample_codec and fs = sample_fs and src = "''/in/pkg.zip''"
        and files = sample_files and dest = "''/out''" and ?fs1.0 = sample_fs and fs_k = fs_k]
      cancel_at_polls(1,2) sample_zip_opened len rf r
    by blast
  obtain r' fs_t where tf:
    "ExtractTar_loop live 0 (Clean ''/out'' @ [Separator]) sample_fs
       (take 3 sample_headers) None = (r', fs_t)"
    by (cases "ExtractTar_loop live 0 (Clean ''/out'' @ [Separator]) sample_fs
       (take 3 sample_headers) None")
  with sample_tar_three_entries have r': "r' = None"
    and b': "fs_t ''/out/pkg/b.txt'' = Some (RegFile [0x62])"
    by simp_all
  have len': "3 \<le> length (fst (sample_headers, None :: error option))"
    by (simp add: sample_headers_def)
  have tf': "ExtractTar_loop live 0 (Clean ''/out'' @ [Separator]) sample_fs
       (take 3 (fst (sample_headers, None :: error option))) None = (None, fs_t)"
    using tf r' by simp
  have t: "ExtractTar sample_codec (cancel_at 3) sample_fs ''/in/pkg.tar'' ''/out''
      = (Inl Canceled, fs_t)"
    using cancellation_stops_extraction [where k = 3 and ctx = "cancel_at 3" and e = Canceled
        and c = sample_codec and fs = sample_fs and src = "''/in/pkg.tar''"
        and dest = "''/out''" and ?fs1.0 = sample_fs and fs_k = fs_t
        and f = "\<lparr>fnode = RegFile sample_tar_bytes, offset = 0\<rparr>"
        and tarReader = "(sample_headers, None)"]
      cancel_at_polls(3,4) sample_tar_opened len' tf'
    by blast
  from z t a b b' show ?thesis by simp
qed


section \<open>The path returned on success\<close>

subsection \<open>The package name and the file name without its extension\<close>






subsection \<open>The three adapters\<close>









section \<open>The cap on the size of an extracted file\<close>

lemma os_Mkdir_nodes:
  assumes "os_Mkdir fs d perm = Inr fs1"
  shows "fs1 q = fs q \<or> fs1 q = Some DirNode"
  using assms
  by (auto simp: os_Mkdir_def Let_def split: sum.splits if_splits option.splits)

lemma Mkdir_if_missing_nodes:
  assumes "Mkdir_if_missing fs d = Inr fs1"
  shows "fs1 q = fs q \<or> fs1 q = Some DirNode"
  using assms os_Mkdir_nodes [of fs d 488 fs1 q]
  by (auto simp: Mkdir_if_missing_def split: sum.splits if_splits)

lemma CreateDir_nodes:
  assumes "CreateDir fs d = Inr fs1"
  shows "fs1 q = fs q \<or> fs1 q = Some DirNode"
  using assms os_Mkdir_nodes [of fs d 488 fs1 q]
  by (auto simp: CreateDir_def split: sum.splits if_splits)

text \<open>Opening a path for writing that holds no stream and copying to it leaves a regular
  file with the bytes copied.\<close>

lemma create_and_write:
  assumes "os_OpenFile fs1 p perm = Inr fs2" and "\<forall>bs. fs1 (Clean p) \<noteq> Some (Stream bs)"
  shows "file_Write fs2 p data (Clean p) = Some (RegFile data)"
proof -
  from assms(1) have ne: "p \<noteq> []" by (auto simp: os_OpenFile_def)
  from assms(1) ne obtain d where d: "resolve_parent fs1 p (split_path p) = Inr d"
    by (auto simp: os_OpenFile_def Let_def split: sum.splits)
  from resolve_parent_key [OF ne d] have k: "Join [d, last (split_path p)] = Clean p" .
  from assms ne d k have "fs2 = fs1(Clean p \<mapsto> RegFile [])"
    by (cases "fs1 (Clean p)")
      (auto simp: os_OpenFile_def Let_def simp del: Join.simps
        split: if_splits node.splits)
  then show ?thesis by (simp add: file_Write_def)
qed

lemma LimitReader_bytes [simp]: "fst (io_LimitReader rc n) = take n (fst rc)"
  by (simp add: io_LimitReader_def)

lemma LimitReader_capped [simp]: "n \<le> length (fst rc) \<Longrightarrow> snd (io_LimitReader rc n) = None"
  by (simp add: io_LimitReader_def)

lemma ExtractZip_entry_file:
  assumes "safeJoin cd (Name file) = Inr p" and "\<not> IsDir file" and "Open file = Inr rc"
    and "ExtractZip_entry cd fs file = (None, fs')"
    and "\<forall>bs. fs (Clean p) \<noteq> Some (Stream bs)"
  shows "fs' (Clean p) = Some (RegFile (take maxExtractFileSize (fst rc)))"
proof -
  from assms(1-4) obtain fs1 fs2 where c: "CreateDir fs (Dir p) = Inr fs1"
    and o: "os_Create fs1 p = Inr fs2"
    and w: "fs' = file_Write fs2 p (take maxExtractFileSize (fst rc))"
    by (auto simp: ExtractZip_entry_def io_Copy_def split: sum.splits prod.splits option.splits)
  have "\<forall>bs. fs1 (Clean p) \<noteq> Some (Stream bs)"
    using CreateDir_nodes [OF c, of "Clean p"] assms(5) by auto
  with o w show ?thesis using create_and_write [of fs1 p 438 fs2] by (simp add: os_Create_def)
qed

lemma Extract7z_entry_file:
  assumes "safeJoin cd (Name file) = Inr p" and "\<not> IsDir file" and "Open file = Inr rc"
    and "Extract7z_entry cd fs file = (None, fs')"
    and "\<forall>bs. fs (Clean p) \<noteq> Some (Stream bs)"
  shows "fs' (Clean p) = Some (RegFile (take maxExtractFileSize (fst rc)))"
proof -
  from assms(1-4) obtain fs1 fs2 where c: "Mkdir_if_missing fs (Dir p) = Inr fs1"
    and o: "os_OpenFile fs1 p (sanitizeFileMode (Mode file)) = Inr fs2"
    and w: "fs' = file_Write fs2 p (take maxExtractFileSize (fst rc))"
    by (auto simp: Extract7z_entry_def io_Copy_def Let_def
        split: sum.splits prod.splits option.splits)
  have "\<forall>bs. fs1 (Clean p) \<noteq> Some (Stream bs)"
    using Mkdir_if_missing_nodes [OF c, of "Clean p"] assms(5) by auto
  with o w show ?thesis using create_and_write [of fs1 p _ fs2] by simp
qed

lemma ExtractTar_entry_file:
  assumes "safeJoin cd (hName header) = Inr p" and "Typeflag header = TypeReg"
    and "ExtractTar_entry cd fs header = (None, fs')"
    and "\<forall>bs. fs (Clean p) \<noteq> Some (Stream bs)"
  shows "fs' (Clean p) = Some (RegFile (take maxExtractFileSize (fst (hData header))))"
proof -
  have ne: "TypeReg \<noteq> TypeDir" by (simp add: TypeReg_def TypeDir_def)
  from assms(1-3) ne obtain fs1 fs2 where c: "Mkdir_if_missing fs (Dir p) = Inr fs1"
    and o: "os_Create fs1 p = Inr fs2"
    and w: "fs' = file_Write fs2 p (take maxExtractFileSize (fst (hData header)))"
    by (auto simp: ExtractTar_entry_def io_Copy_def Let_def
        split: sum.splits prod.splits option.splits)
  have "\<forall>bs. fs1 (Clean p) \<noteq> Some (Stream bs)"
    using Mkdir_if_missing_nodes [OF c, of "Clean p"] assms(4) by auto
  with o w show ?thesis using create_and_write [of fs1 p 438 fs2] by (simp add: os_Create_def)
qed

text \<open>An entry longer than the cap does not fail for its length: once its parent
  directory and its file are created, the body succeeds.\<close>

lemma ExtractZip_entry_oversize:
  assumes "safeJoin cd (Name file) = Inr p" and "\<not> IsDir file" and "Open file = Inr rc"
    and "CreateDir fs (Dir p) = Inr fs1" and "os_Create fs1 p = Inr fs2"
    and "maxExtractFileSize < length (fst rc)"
  shows "ExtractZip_entry cd fs file
           = (None, file_Write fs2 p (take maxExtractFileSize (fst rc)))"
  using assms by (simp add: ExtractZip_entry_def io_Copy_def)

lemma Extract7z_entry_oversize:
  assumes "safeJoin cd (Name file) = Inr p" and "\<not> IsDir file" and "Open file = Inr rc"
    and "Mkdir_if_missing fs (Dir p) = Inr fs1"
    and "os_OpenFile fs1 p (sanitizeFileMode (Mode file)) = Inr fs2"
    and "maxExtractFileSize < length (fst rc)"
  shows "Extract7z_entry cd fs file
           = (None, file_Write fs2 p (take maxExtractFileSize (fst rc)))"
  using assms by (simp add: Extract7z_entry_def io_Copy_def)

lemma ExtractTar_entry_oversize:
  assumes "safeJoin cd (hName header) = Inr p" and "Typeflag header = TypeReg"
    and "Mkdir_if_missing fs (Dir p) = Inr fs1" and "os_Create fs1 p = Inr fs2"
    and "maxExtractFileSize < length (fst (hData header))"
  shows "ExtractTar_entry cd fs header
           = (None, file_Write fs2 p (take maxExtractFileSize (fst (hData header))))"
proof -
  have ne: "TypeReg \<noteq> TypeDir" by (simp add: TypeReg_def TypeDir_def)
  have "io_Copy fs2 p (io_LimitReader (hData header) maxExtractFileSize)
      = (None, file_Write fs2 p (take maxExtractFileSize (fst (hData header))))"
    using assms(5) by (simp add: io_Copy_def)
  with assms ne show ?thesis by (simp add: ExtractTar_entry_def)
qed

text \<open>
  C5. The cap is 5 GiB. A file entry that an adapter extracts without error leaves at
  its output path a regular file whose content is the first \<open>maxExtractFileSize\<close> bytes
  of the entry: all of the entry when it is no longer than the cap, exactly
  \<open>maxExtractFileSize\<close> bytes when it is longer. An entry longer than the cap is
  extracted without error once its parent directory and its file are created,
  whatever the rest of its data is. (The output path is assumed not to hold a FIFO or
  a device already, to which the bytes would be written instead.)
\<close>

theorem extraction_caps_file_size:
  "maxExtractFileSize = 5 * 2 ^ 30
   \<and> (maxExtractFileSize < length data \<longrightarrow>
        length (take maxExtractFileSize data) = maxExtractFileSize)
   \<and> (length data \<le> maxExtractFileSize \<longrightarrow> take maxExtractFileSize data = data)
   \<and> (safeJoin cd (Name en) = Inr p \<and> \<not> IsDir en \<and> Open en = Inr rc
        \<and> (\<forall>bs. fs (Clean p) \<noteq> Some (Stream bs)) \<longrightarrow>
        (ExtractZip_entry cd fs en = (None, fs') \<longrightarrow>
           fs' (Clean p) = Some (RegFile (take maxExtractFileSize (fst rc))))
        \<and> (Extract7z_entry cd fs en = (None, fs') \<longrightarrow>
           fs' (Clean p) = Some (RegFile (take maxExtractFileSize (fst rc))))
        \<and> (maxExtractFileSize < length (fst rc) \<and> CreateDir fs (Dir p) = Inr fs1
            \<and> os_Create fs1 p = Inr fs2 \<longrightarrow>
           (\<exists>fs3. ExtractZip_entry cd fs en = (None, fs3)
                 \<and> fs3 (Clean p) = Some (RegFile (take maxExtractFileSize (fst rc)))))
        \<and> (maxExtractFileSize < length (fst rc) \<and> Mkdir_if_missing fs (Dir p) = Inr fs1
            \<and> os_OpenFile fs1 p (sanitizeFileMode (Mode en)) = Inr fs2 \<longrightarrow>
           (\<exists>fs3. Extract7z_entry cd fs en = (None, fs3)
                 \<and> fs3 (Clean p) = Some (RegFile (take maxExtractFileSize (fst rc))))))
   \<and> (safeJoin cd (hName header) = Inr p \<and> Typeflag header = TypeReg
        \<and> (\<forall>bs. fs (Clean p) \<noteq> Some (Stream bs)) \<longrightarrow>
        (ExtractTar_entry cd fs header = (None, fs') \<longrightarrow>
           fs' (Clean p) = Some (RegFile (take maxExtractFileSize (fst (hData header)))))
        \<and> (maxExtractFileSize < length (fst (hData header))
            \<and> Mkdir_if_missing fs (Dir p) = Inr fs1 \<and> os_Create fs1 p = Inr fs2 \<longrightarrow>
           (\<exists>fs3. ExtractTar_entry cd fs header = (None, fs3)
                 \<and> fs3 (Clean p)
                     = Some (RegFile (take maxExtractFileSize (fst (hData header)))))))"
proof (intro conjI impI, goal_cases)
  case 1
  show ?case by (simp add: maxExtractFileSize_def)
next
  case 2
  then show ?case by simp
next
  case 3
  then show ?case by simp
next
  case 4
  then show ?case using ExtractZip_entry_file [of cd en p rc fs fs'] by blast
next
  case 5
  then show ?case using Extract7z_entry_file [of cd en p rc fs fs'] by blast
next
  case 6
  then have e: "ExtractZip_entry cd fs en
      = (None, file_Write fs2 p (take maxExtractFileSize (fst rc)))"
    using ExtractZip_entry_oversize [of cd en p rc fs fs1 fs2] by blast
  with 6 show ?case
    using ExtractZip_entry_file [of cd en p rc fs
        "file_Write fs2 p (take maxExtractFileSize (fst rc))"]
    by blast
next
  case 7
  then have e: "Extract7z_entry cd fs en
      = (None, file_Write fs2 p (take maxExtractFileSize (fst rc)))"
    using Extract7z_entry_oversize [of cd en p rc fs fs1 fs2] by blast
  with 7 show ?case
    using Extract7z_entry_file [of cd en p rc fs
        "file_Write fs2 p (take maxExtractFileSize (fst rc))"]
    by blast
next
  case 8
  then show ?case using ExtractTar_entry_file [of cd header p fs fs'] by blast
next
  case 9
  then have e: "ExtractTar_entry cd fs header
      = (None, file_Write fs2 p (take maxExtractFileSize (fst (hData header))))"
    using ExtractTar_entry_oversize [of cd header p fs fs1 fs2] by blast
  with 9 show ?case
    using ExtractTar_entry_file [of cd header p fs
        "file_Write fs2 p (take maxExtractFileSize (fst (hData header)))"]
    by blast
qed

lemma sample_entry_paths:
  "safeJoin ''/out/'' ''a.txt'' = Inr ''/out/a.txt''"
  "safeJoin ''/out/'' ''big.bin'' = Inr ''/out/big.bin''"
  "Clean ''/out/a.txt'' = ''/out/a.txt''" "Dir ''/out/a.txt'' = ''/out''"
  "Clean ''/out/big.bin'' = ''/out/big.bin''" "Dir ''/out/big.bin'' = ''/out''"
  by code_simp+

lemma sample_out_nodes:
  "sample_fs ''/out/a.txt'' = None" "sample_fs ''/out/big.bin'' = None"
  by (simp_all add: sample_fs_def)

lemma sample_big_created:
  "CreateDir sample_fs ''/out'' = Inr sample_fs"
  "Mkdir_if_missing sample_fs ''/out'' = Inr sample_fs"
  "os_Create sample_fs ''/out/big.bin'' = Inr (sample_fs(''/out/big.bin'' \<mapsto> RegFile []))"
  by (simp_all add: CreateDir_def Mkdir_if_missing_def os_Stat_def os_Create_def os_OpenFile_def
      resolve_def resolve_parent_def start_dir_def Separator_def Clean_sample split_sample
      Join_sample sample_entry_paths sample_nodes sample_out_nodes
      del: Join.simps split_path.simps)

lemma sample_small_extracted:
  "fst (ExtractZip_entry ''/out/'' sample_fs small_entry) = None"
  by (simp add: small_entry_def ExtractZip_entry_def sample_entry_paths CreateDir_def os_Stat_def
      os_Create_def os_OpenFile_def resolve_def resolve_parent_def start_dir_def Separator_def
      Clean_sample split_sample Join_sample sample_nodes sample_out_nodes io_Copy_def
      io_LimitReader_def maxExtractFileSize_value del: Join.simps split_path.simps)

theorem extraction_caps_file_size_witness:
  "snd (ExtractZip_entry ''/out/'' sample_fs small_entry) ''/out/a.txt''
     = Some (RegFile [0x68, 0x69])
   \<and> (\<exists>fs3. ExtractZip_entry ''/out/'' sample_fs big_entry = (None, fs3)
          \<and> fs3 ''/out/big.bin'' = Some (RegFile (replicate maxExtractFileSize 0x41)))
   \<and> (\<exists>fs3. ExtractTar_entry ''/out/'' sample_fs big_header = (None, fs3)
          \<and> fs3 ''/out/big.bin'' = Some (RegFile (replicate maxExtractFileSize 0x41)))"
proof -
  obtain fs' where s: "ExtractZip_entry ''/out/'' sample_fs small_entry = (None, fs')"
    using sample_small_extracted
    by (cases "ExtractZip_entry ''/out/'' sample_fs small_entry") simp
  have a: "fs' ''/out/a.txt'' = Some (RegFile [0x68, 0x69])"
    using extraction_caps_file_size [where cd = "''/out/''" and en = small_entry
        and p = "''/out/a.txt''" and rc = "([0x68, 0x69], None)" and fs = sample_fs
        and fs' = fs' and data = "[]" and ?fs1.0 = sample_fs and ?fs2.0 = sample_fs
        and header = big_header] s
    by (simp add: small_entry_def sample_entry_paths sample_out_nodes maxExtractFileSize_value)
  have big: "maxExtractFileSize < length (fst (replicate (Suc maxExtractFileSize) (0x41 :: byte),
      None :: error option))"
    by simp
  have tk: "take maxExtractFileSize (fst (replicate (Suc maxExtractFileSize) (0x41 :: byte),
      None :: error option)) = replicate maxExtractFileSize 0x41"
    by (simp del: replicate_Suc)
  have b: "\<exists>fs3. ExtractZip_entry ''/out/'' sample_fs big_entry = (None, fs3)
          \<and> fs3 ''/out/big.bin'' = Some (RegFile (replicate maxExtractFileSize 0x41))"
    using extraction_caps_file_size [where cd = "''/out/''" and en = big_entry
        and p = "''/out/big.bin''" and rc = "(replicate (Suc maxExtractFileSize) 0x41, None)"
        and fs = sample_fs and ?fs1.0 = sample_fs
        and ?fs2.0 = "sample_fs(''/out/big.bin'' \<mapsto> RegFile [])"
        and fs' = sample_fs and data = "[]" and header = big_header]
      big sample_big_created
    by (simp add: big_entry_def sample_entry_paths sample_out_nodes tk del: replicate_Suc)
  have c: "\<exists>fs3. ExtractTar_entry ''/out/'' sample_fs big_header = (None, fs3)
          \<and> fs3 ''/out/big.bin'' = Some (RegFile (replicate maxExtractFileSize 0x41))"
    using extraction_caps_file_size [where cd = "''/out/''" and header = big_header
        and p = "''/out/big.bin''" and fs = sample_fs and ?fs1.0 = sample_fs
        and ?fs2.0 = "sample_fs(''/out/big.bin'' \<mapsto> RegFile [])"
        and fs' = sample_fs and data = "[]" and en = big_entry
        and rc = "(replicate (Suc maxExtractFileSize) 0x41, None)"]
      big sample_big_created
    by (simp add: big_header_def TypeReg_def sample_entry_paths sample_out_nodes tk
        del: replicate_Suc)
  from s a b c show ?thesis by simp
qed

end
